theory Spec2Isabelle
  imports Main "HOL-Library.Sublist"
begin

section \<open>JavaScript strings\<close>

text \<open>
  A JavaScript string is a sequence of UTF-16 code units; \<open>length\<close>, \<open>split\<close>,
  \<open>includes\<close>, \<open>trim\<close> and regular expressions without the \<open>u\<close> flag all work on
  code units. A code unit is a natural number below 65536. ASCII literals of the source
  are written \<open>lit ''...''\<close>; literals with CJK characters are written as code-unit lists.
\<close>

type_synonym jsstring = "nat list"

definition lit :: "string \<Rightarrow> jsstring" where
  "lit s = map of_char s"

text \<open>\<^verbatim>\<open>s.includes(sub)\<close>: \<open>sub\<close> occurs in \<open>s\<close> as a contiguous run.\<close>

fun includes_js :: "jsstring \<Rightarrow> jsstring \<Rightarrow> bool" where
  "includes_js [] sub = (sub = [])"
| "includes_js (x # xs) sub = (prefix sub (x # xs) \<or> includes_js xs sub)"

text \<open>\<^verbatim>\<open>s.split(sep)\<close> for a separator of one code unit; the result is never empty.\<close>

fun split :: "nat \<Rightarrow> jsstring \<Rightarrow> jsstring list" where
  "split sep [] = [[]]"
| "split sep (x # xs) =
     (if x = sep then [] # split sep xs
      else (case split sep xs of [] \<Rightarrow> [[x]] | p # ps \<Rightarrow> (x # p) # ps))"

text \<open>
  \<^verbatim>\<open>s.trim()\<close> strips WhiteSpace and LineTerminator code units (ECMAScript 11.2, 11.3)
  from both ends.
\<close>

definition isLineTerminator :: "nat \<Rightarrow> bool" where
  "isLineTerminator c = (c = 10 \<or> c = 13 \<or> c = 8232 \<or> c = 8233)"

definition isWhiteSpace :: "nat \<Rightarrow> bool" where
  "isWhiteSpace c =
     (c = 9 \<or> c = 11 \<or> c = 12 \<or> c = 32 \<or> c = 160 \<or> c = 5760 \<or> (8192 \<le> c \<and> c \<le> 8202)
      \<or> c = 8239 \<or> c = 8287 \<or> c = 12288 \<or> c = 65279)"

definition trim :: "jsstring \<Rightarrow> jsstring" where
  "trim s =
     rev (dropWhile (\<lambda>c. isWhiteSpace c \<or> isLineTerminator c)
       (rev (dropWhile (\<lambda>c. isWhiteSpace c \<or> isLineTerminator c) s)))"

section \<open>Data model\<close>

text \<open>
  The interfaces \<open>Book\<close>, \<open>BookHighlight\<close> and \<open>BookBookmark\<close>. Optional fields are
  options, a \<open>Date\<close> is its epoch time, and the field names that two interfaces share (or
  that clash with a constant of HOL) carry the interface as suffix.
\<close>

record BookHighlight =
  id_highlight :: jsstring
  text_highlight :: jsstring
  position_highlight :: int
  chapter_highlight :: "int option"
  createdAt_highlight :: int
  note_highlight :: "jsstring option"

record BookBookmark =
  id_bookmark :: jsstring
  position_bookmark :: int
  chapter_bookmark :: "int option"
  createdAt_bookmark :: int
  note_bookmark :: "jsstring option"

record Book =
  id_book :: jsstring
  title :: jsstring
  author :: "jsstring option"
  filePath :: jsstring
  fileType :: jsstring
  coverUrl :: "jsstring option"
  lastRead :: "int option"
  lastPage :: "int option"
  totalPages :: "int option"
  chapterIndex :: "int option"
  highlights :: "BookHighlight list option"
  bookmarks :: "BookBookmark list option"

section \<open>The platform: key-value store and file system\<close>

text \<open>
  \<open>AsyncStorage\<close> holds one string under \<open>BOOKS_STORAGE_KEY\<close>. The only writer is
  \<open>saveBooks\<close>, which stores \<open>JSON.stringify(books)\<close>, but the store may hold any
  string. A stored text is the serialisation of a book list, a text that parses to a
  value that is no array (\<^verbatim>\<open>null\<close>, a boolean, a number, a string, an object), the
  empty string, or a text that \<open>JSON.parse\<close> rejects.
  \<open>JSON.parse (JSON.stringify books)\<close> is taken to be \<open>books\<close>.
\<close>

datatype json_text = Stringified "Book list" | OtherJson | EmptyText | Malformed

fun truthy_text :: "json_text \<Rightarrow> bool" where
  "truthy_text (Stringified bs) = True"
| "truthy_text OtherJson = True"
| "truthy_text EmptyText = False"
| "truthy_text Malformed = True"

text \<open>
  What \<open>JSON.parse\<close> returns, and so what \<open>getAllBooks\<close> hands to its callers under
  the type \<open>Book[]\<close>: an array of books, or a value that is no array. The array methods
  \<open>push\<close>, \<open>find\<close> and \<open>findIndex\<close> do not exist on the latter, and calling them
  throws a \<open>TypeError\<close>.
\<close>

datatype json_value = JArray "Book list" | JNonArray

datatype encoding = UTF8 | Base64

datatype fs_call =
    GetInfo jsstring
  | MakeDirectory jsstring
  | ReadAsString jsstring encoding "(nat \<times> nat) option"
  | WriteAsString jsstring jsstring
  | Copy jsstring jsstring
  | Delete jsstring

datatype error =
    FileSystemError fs_call
  | StorageReadError
  | StorageWriteError
  | SyntaxError
  | TypeError
  | FileNotReadableError jsstring
  | RecordNotFoundError jsstring

datatype node = File "nat list" | Directory

datatype os = Ios | Android | Windows | Macos | Web

text \<open>
  What the run-time environment fixes: \<open>Platform.OS\<close>, \<open>FileSystem.documentDirectory\<close>
  (a string or \<open>null\<close>), \<open>String.prototype.toLowerCase\<close>, and the codecs between file
  bytes and strings (UTF-8 reading and writing of expo-file-system, its Base64 reading,
  and \<open>Buffer.from(s, 'base64').toString('utf8')\<close>).
\<close>

record platform =
  OS :: os
  documentDirectory :: "jsstring option"
  toLowerCase :: "jsstring \<Rightarrow> jsstring"
  decodeUTF8 :: "nat list \<Rightarrow> jsstring option"
  encodeUTF8 :: "jsstring \<Rightarrow> nat list"
  encodeBase64 :: "nat list \<Rightarrow> jsstring"
  bufferBase64ToUTF8 :: "jsstring \<Rightarrow> jsstring"

text \<open>
  The state the module works on: the stored catalog text, the files, the module-level
  \<open>contentCache\<close>, and the log of the file-system calls made so far. Failures of the
  platform are inputs: \<open>getItem_fault\<close> and \<open>setItem_fault\<close> say whether the key-value
  calls throw, \<open>fs_fault log c\<close> whether the file-system call \<open>c\<close> throws after the calls
  \<open>log\<close>. The field \<open>contentCache\<close> holds the own properties of the plain object
  \<open>contentCache\<close>; what a lookup in that object gives is \<open>cache_get\<close> below.
\<close>

record world =
  storage :: "json_text option"
  getItem_fault :: bool
  setItem_fault :: bool
  files :: "jsstring \<rightharpoonup> node"
  io_log :: "fs_call list"
  fs_fault :: "fs_call list \<Rightarrow> fs_call \<Rightarrow> bool"
  contentCache :: "jsstring \<rightharpoonup> jsstring"

type_synonym 'a io = "world \<Rightarrow> (error + 'a) \<times> world"

definition return :: "'a \<Rightarrow> 'a io" where
  "return x w = (Inr x, w)"

definition throw :: "error \<Rightarrow> 'a io" where
  "throw e w = (Inl e, w)"

definition bind :: "'a io \<Rightarrow> ('a \<Rightarrow> 'b io) \<Rightarrow> 'b io" where
  "bind m f w = (case m w of (Inl e, w') \<Rightarrow> (Inl e, w') | (Inr x, w') \<Rightarrow> f x w')"

text \<open>\<^verbatim>\<open>try { m } catch (e) { h(e) }\<close>\<close>

definition catch :: "'a io \<Rightarrow> (error \<Rightarrow> 'a io) \<Rightarrow> 'a io" where
  "catch m h w = (case m w of (Inl e, w') \<Rightarrow> h e w' | (Inr x, w') \<Rightarrow> (Inr x, w'))"

subsection \<open>AsyncStorage\<close>

definition getItem :: "json_text option io" where
  "getItem w = (if getItem_fault w then (Inl StorageReadError, w) else (Inr (storage w), w))"

definition setItem :: "json_text \<Rightarrow> unit io" where
  "setItem v w =
     (if setItem_fault w then (Inl StorageWriteError, w) else (Inr (), w\<lparr>storage := Some v\<rparr>))"

definition JSON_parse :: "json_text \<Rightarrow> json_value io" where
  "JSON_parse t =
     (case t of
        Stringified bs \<Rightarrow> return (JArray bs)
      | OtherJson \<Rightarrow> return JNonArray
      | EmptyText \<Rightarrow> throw SyntaxError
      | Malformed \<Rightarrow> throw SyntaxError)"

definition JSON_stringify :: "Book list \<Rightarrow> json_text" where
  "JSON_stringify bs = Stringified bs"

subsection \<open>expo-file-system\<close>

text \<open>
  Every call is logged, then throws if the platform faults it or if the files do not
  allow it (reading, copying or deleting what does not exist, writing over a directory).
\<close>

record file_info =
  exists :: bool
  isDirectory :: bool

definition fs_do :: "fs_call \<Rightarrow> (world \<Rightarrow> (error + 'a) \<times> world) \<Rightarrow> 'a io" where
  "fs_do c act w =
     (let w' = w\<lparr>io_log := io_log w @ [c]\<rparr>
      in if fs_fault w (io_log w) c then (Inl (FileSystemError c), w') else act w')"

definition getInfoAsync :: "jsstring \<Rightarrow> file_info io" where
  "getInfoAsync p =
     fs_do (GetInfo p) (\<lambda>w.
       (Inr (case files w p of
               None \<Rightarrow> \<lparr>exists = False, isDirectory = False\<rparr>
             | Some Directory \<Rightarrow> \<lparr>exists = True, isDirectory = True\<rparr>
             | Some (File bs) \<Rightarrow> \<lparr>exists = True, isDirectory = False\<rparr>), w))"

definition makeDirectoryAsync :: "jsstring \<Rightarrow> unit io" where
  "makeDirectoryAsync p =
     fs_do (MakeDirectory p) (\<lambda>w.
       (case files w p of
          Some (File bs) \<Rightarrow> (Inl (FileSystemError (MakeDirectory p)), w)
        | Some Directory \<Rightarrow> (Inr (), w)
        | None \<Rightarrow> (Inr (), w\<lparr>files := (files w)(p \<mapsto> Directory)\<rparr>)))"

definition slice :: "(nat \<times> nat) option \<Rightarrow> nat list \<Rightarrow> nat list" where
  "slice r bs = (case r of None \<Rightarrow> bs | Some (pos, len) \<Rightarrow> take len (drop pos bs))"

definition readAsStringAsync ::
  "platform \<Rightarrow> jsstring \<Rightarrow> encoding \<Rightarrow> (nat \<times> nat) option \<Rightarrow> jsstring io" where
  "readAsStringAsync P p enc r =
     fs_do (ReadAsString p enc r) (\<lambda>w.
       (case files w p of
          Some (File bs) \<Rightarrow>
            (case enc of
               UTF8 \<Rightarrow> (case decodeUTF8 P (slice r bs) of
                          Some s \<Rightarrow> (Inr s, w)
                        | None \<Rightarrow> (Inl (FileSystemError (ReadAsString p enc r)), w))
             | Base64 \<Rightarrow> (Inr (encodeBase64 P (slice r bs)), w))
        | Some Directory \<Rightarrow> (Inl (FileSystemError (ReadAsString p enc r)), w)
        | None \<Rightarrow> (Inl (FileSystemError (ReadAsString p enc r)), w)))"

definition writeAsStringAsync :: "platform \<Rightarrow> jsstring \<Rightarrow> jsstring \<Rightarrow> unit io" where
  "writeAsStringAsync P p content =
     fs_do (WriteAsString p content) (\<lambda>w.
       (case files w p of
          Some Directory \<Rightarrow> (Inl (FileSystemError (WriteAsString p content)), w)
        | Some (File bs) \<Rightarrow> (Inr (), w\<lparr>files := (files w)(p \<mapsto> File (encodeUTF8 P content))\<rparr>)
        | None \<Rightarrow> (Inr (), w\<lparr>files := (files w)(p \<mapsto> File (encodeUTF8 P content))\<rparr>)))"

definition copyAsync :: "jsstring \<Rightarrow> jsstring \<Rightarrow> unit io" where
  "copyAsync from to =
     fs_do (Copy from to) (\<lambda>w.
       (case files w from of
          None \<Rightarrow> (Inl (FileSystemError (Copy from to)), w)
        | Some n \<Rightarrow> (Inr (), w\<lparr>files := (files w)(to \<mapsto> n)\<rparr>)))"

definition deleteAsync :: "jsstring \<Rightarrow> unit io" where
  "deleteAsync p =
     fs_do (Delete p) (\<lambda>w.
       (case files w p of
          None \<Rightarrow> (Inl (FileSystemError (Delete p)), w)
        | Some n \<Rightarrow> (Inr (), w\<lparr>files := (files w)(p := None)\<rparr>)))"

section \<open>services/BookStorage.ts\<close>

definition BOOKS_DIR :: "platform \<Rightarrow> jsstring" where
  "BOOKS_DIR P =
     (case documentDirectory P of None \<Rightarrow> lit ''null'' | Some d \<Rightarrow> d) @ lit ''books/''"

definition initialize :: "platform \<Rightarrow> unit io" where
  "initialize P =
     catch
       (bind (getInfoAsync (BOOKS_DIR P)) (\<lambda>dirInfo.
          if \<not> exists dirInfo then makeDirectoryAsync (BOOKS_DIR P) else return ()))
       (\<lambda>error. throw error)"

definition getAllBooks :: "json_value io" where
  "getAllBooks =
     catch
       (bind getItem (\<lambda>booksJson.
          case booksJson of
            None \<Rightarrow> return (JArray [])
          | Some t \<Rightarrow> if truthy_text t then JSON_parse t else return (JArray [])))
       (\<lambda>error. return (JArray []))"

definition saveBooks :: "Book list \<Rightarrow> unit io" where
  "saveBooks books = catch (setItem (JSON_stringify books)) (\<lambda>error. throw error)"

definition isFileReadable :: "platform \<Rightarrow> jsstring \<Rightarrow> bool io" where
  "isFileReadable P filePath' =
     catch
       (bind (getInfoAsync filePath') (\<lambda>fileInfo.
          if \<not> exists fileInfo \<or> isDirectory fileInfo then return False
          else if OS P = Ios then
            catch
              (bind (readAsStringAsync P filePath' UTF8 (Some (0, 100))) (\<lambda>s. return True))
              (\<lambda>e. return False)
          else return True))
       (\<lambda>error. return False)"

text \<open>\<^verbatim>\<open>books.findIndex(pred)\<close>: the first index whose element satisfies, or \<open>-1\<close>.\<close>

fun findIndex_from :: "('a \<Rightarrow> bool) \<Rightarrow> 'a list \<Rightarrow> int \<Rightarrow> int" where
  "findIndex_from pred [] i = - 1"
| "findIndex_from pred (x # xs) i = (if pred x then i else findIndex_from pred xs (i + 1))"

definition findIndex :: "('a \<Rightarrow> bool) \<Rightarrow> 'a list \<Rightarrow> int" where
  "findIndex pred xs = findIndex_from pred xs 0"

text \<open>The extension chosen at the head of \<open>addBook\<close>.\<close>

definition addBook_fileExt :: "platform \<Rightarrow> Book \<Rightarrow> jsstring \<Rightarrow> jsstring" where
  "addBook_fileExt P book fileUri =
     (if includes_js (fileType book) (lit ''text/plain'') then lit ''txt''
      else if includes_js (fileType book) (lit ''application/pdf'') then lit ''pdf''
      else if includes_js (fileType book) (lit ''application/epub+zip'') then lit ''epub''
      else (let uriParts = split 46 fileUri
            in if length uriParts > 1 then toLowerCase P (last uriParts) else []))"

definition addBook_localFilePath :: "platform \<Rightarrow> Book \<Rightarrow> jsstring \<Rightarrow> jsstring" where
  "addBook_localFilePath P book fileUri =
     BOOKS_DIR P @ (id_book book @ lit ''.'' @ addBook_fileExt P book fileUri)"

text \<open>
  \<open>contentCache\<close> is the plain object \<^verbatim>\<open>{}\<close>, so a lookup that finds no own property
  goes on to \<open>Object.prototype\<close>. Its members (ECMAScript 19.1.3 and B.2.2) are functions,
  and \<open>__proto__\<close> is an accessor that gives the prototype object itself: all are
  truthy and none is a string.
\<close>

definition Object_prototype_names :: "jsstring list" where
  "Object_prototype_names =
     [lit ''constructor'', lit ''hasOwnProperty'', lit ''isPrototypeOf'',
      lit ''propertyIsEnumerable'', lit ''toLocaleString'', lit ''toString'', lit ''valueOf'',
      lit ''__defineGetter__'', lit ''__defineSetter__'', lit ''__lookupGetter__'',
      lit ''__lookupSetter__'', lit ''__proto__'']"

text \<open>
  A value read from the cache object: a text stored by this module, or the member of
  \<open>Object.prototype\<close> of the given name.
\<close>

datatype js_value = Text jsstring | Inherited jsstring

text \<open>
  \<^verbatim>\<open>contentCache[filePath]\<close>; \<open>None\<close> is \<open>undefined\<close>. The name \<open>__proto__\<close> never
  becomes an own property (see \<open>cache_put\<close>), so it always gives the inherited accessor.
\<close>

definition cache_get :: "world \<Rightarrow> jsstring \<Rightarrow> js_value option" where
  "cache_get w p =
     (if p = lit ''__proto__'' then Some (Inherited p)
      else case contentCache w p of
             Some c \<Rightarrow> Some (Text c)
           | None \<Rightarrow> if p \<in> set Object_prototype_names then Some (Inherited p) else None)"

text \<open>
  \<^verbatim>\<open>contentCache[p] = content\<close> creates or overwrites an own property, also over an
  inherited function; for \<open>__proto__\<close> it calls the inherited setter, which ignores a
  string.
\<close>

definition cache_put :: "jsstring \<Rightarrow> jsstring \<Rightarrow> unit io" where
  "cache_put p content w =
     (if p = lit ''__proto__'' then (Inr (), w)
      else (Inr (), w\<lparr>contentCache := (contentCache w)(p \<mapsto> content)\<rparr>))"

text \<open>The copy step of \<open>addBook\<close>: text is read and written back, anything else copied.\<close>

definition addBook_copy :: "platform \<Rightarrow> jsstring \<Rightarrow> jsstring \<Rightarrow> jsstring \<Rightarrow> unit io" where
  "addBook_copy P fileExt fileUri localFilePath =
     (if fileExt = lit ''txt'' then
        catch
          (bind (readAsStringAsync P fileUri UTF8 None) (\<lambda>content.
             bind (cache_put localFilePath content) (\<lambda>u.
               writeAsStringAsync P localFilePath content)))
          (\<lambda>readError. copyAsync fileUri localFilePath)
      else copyAsync fileUri localFilePath)"

text \<open>
  In \<open>addBook\<close>, \<open>updateBook\<close> and \<open>deleteBook\<close> the first array method called on what
  \<open>getAllBooks\<close> returned (\<open>push\<close>, \<open>findIndex\<close>, \<open>find\<close>) throws a \<open>TypeError\<close>
  when that value is no array.
\<close>

definition addBook :: "platform \<Rightarrow> Book \<Rightarrow> jsstring \<Rightarrow> Book io" where
  "addBook P book fileUri =
     catch
       (bind (initialize P) (\<lambda>u.
          let fileExt = addBook_fileExt P book fileUri;
              localFilePath = addBook_localFilePath P book fileUri
          in bind (addBook_copy P fileExt fileUri localFilePath) (\<lambda>u.
               bind (isFileReadable P localFilePath) (\<lambda>isReadable.
                 if \<not> isReadable then throw (FileNotReadableError localFilePath)
                 else
                   let updatedBook = book\<lparr>filePath := localFilePath\<rparr>
                   in bind getAllBooks (\<lambda>books.
                        case books of
                          JNonArray \<Rightarrow> throw TypeError
                        | JArray bs \<Rightarrow>
                            bind (saveBooks (bs @ [updatedBook])) (\<lambda>u.
                              return updatedBook))))))
       (\<lambda>error. throw error)"

definition PDF_UNSUPPORTED :: jsstring where
  "PDF_UNSUPPORTED =
     [80, 68, 70, 25991, 20214, 38656, 35201, 29305, 27530, 26597, 30475, 22120, 65292,
      26242, 19981, 25903, 25345]"

definition EPUB_UNSUPPORTED :: jsstring where
  "EPUB_UNSUPPORTED =
     [69, 80, 85, 66, 25991, 20214, 38656, 35201, 29305, 27530, 35299, 26512, 22120, 65292,
      26242, 19981, 25903, 25345]"

text \<open>
  The cache test \<^verbatim>\<open>if (contentCache[filePath])\<close> is on truthiness: \<open>undefined\<close> and
  the empty string fail it, every other string and every inherited member pass it.
\<close>

definition truthy_value :: "js_value option \<Rightarrow> bool" where
  "truthy_value v =
     (case v of None \<Rightarrow> False | Some (Text c) \<Rightarrow> c \<noteq> [] | Some (Inherited k) \<Rightarrow> True)"

definition cache_hit :: "world \<Rightarrow> jsstring \<Rightarrow> bool" where
  "cache_hit w p = truthy_value (cache_get w p)"

definition readBookContent_read :: "platform \<Rightarrow> jsstring \<Rightarrow> jsstring \<Rightarrow> jsstring io" where
  "readBookContent_read P filePath' fileType' =
     catch
       (if includes_js fileType' (lit ''text/plain'') then
          bind
            (catch (readAsStringAsync P filePath' UTF8 None)
               (\<lambda>e. bind (readAsStringAsync P filePath' Base64 None) (\<lambda>base64Content.
                      return (bufferBase64ToUTF8 P base64Content))))
            (\<lambda>content. bind (cache_put filePath' content) (\<lambda>u. return content))
        else if includes_js fileType' (lit ''application/pdf'') then return PDF_UNSUPPORTED
        else if includes_js fileType' (lit ''application/epub+zip'') then return EPUB_UNSUPPORTED
        else return [])
       (\<lambda>error. throw error)"

definition readBookContent :: "platform \<Rightarrow> jsstring \<Rightarrow> jsstring \<Rightarrow> js_value io" where
  "readBookContent P filePath' fileType' w =
     (if cache_hit w filePath' then (Inr (the (cache_get w filePath')), w)
      else bind (readBookContent_read P filePath' fileType') (\<lambda>content. return (Text content)) w)"

definition updateBook :: "Book \<Rightarrow> unit io" where
  "updateBook updatedBook =
     catch
       (bind getAllBooks (\<lambda>books.
          case books of
            JNonArray \<Rightarrow> throw TypeError
          | JArray bs \<Rightarrow>
              let index = findIndex (\<lambda>book. id_book book = id_book updatedBook) bs
              in if index \<noteq> - 1 then saveBooks (bs[nat index := updatedBook])
                 else throw (RecordNotFoundError (id_book updatedBook))))
       (\<lambda>error. throw error)"

definition deleteBook :: "jsstring \<Rightarrow> unit io" where
  "deleteBook bookId =
     catch
       (bind getAllBooks (\<lambda>books.
          case books of
            JNonArray \<Rightarrow> throw TypeError
          | JArray bs \<Rightarrow>
              (case find (\<lambda>book. id_book book = bookId) bs of
                 Some bookToDelete \<Rightarrow>
                   bind (catch (deleteAsync (filePath bookToDelete)) (\<lambda>fileError. return ()))
                     (\<lambda>u. saveBooks (filter (\<lambda>book. id_book book \<noteq> bookId) bs))
               | None \<Rightarrow> return ())))
       (\<lambda>error. throw error)"

section \<open>app/reader/[id].tsx: chapter headings\<close>

text \<open>
  The regular expressions that the pattern needs: a literal run of code units, \<open>.\<close>,
  a character class, sequence, alternative and bounded repetition \<open>r{m,n}\<close>.
\<close>

datatype regex =
    Lit jsstring
  | Dot
  | Cls "nat list"
  | Seq regex regex
  | Alt regex regex
  | Rep nat nat regex

text \<open>
  Matching with the \<open>i\<close> flag and without the \<open>u\<close> flag compares code units after
  Canonicalize (ECMAScript 21.2.2.8.2): the upper-case form of the code unit, unless that
  form is longer than one code unit or turns a code unit outside ASCII into one inside.
  The code units of this pattern are ASCII letters and CJK ideographs: an ASCII letter is
  matched by its two cases only, an ideograph by itself only, and that is what the mapping
  below gives.
\<close>

definition canonicalize :: "nat \<Rightarrow> nat" where
  "canonicalize c = (if 97 \<le> c \<and> c \<le> 122 then c - 32 else c)"

primrec iterate :: "nat \<Rightarrow> (jsstring \<Rightarrow> jsstring list) \<Rightarrow> jsstring list \<Rightarrow> jsstring list" where
  "iterate 0 f ss = ss"
| "iterate (Suc k) f ss = iterate k f (concat (map f ss))"

text \<open>
  \<open>match_i r s\<close> lists what is left of \<open>s\<close> after each way in which \<open>r\<close> matches at
  the start of \<open>s\<close>; \<open>.\<close> matches any code unit that is no line terminator.
\<close>

primrec match_i :: "regex \<Rightarrow> jsstring \<Rightarrow> jsstring list" where
  "match_i (Lit cs) s =
     (if length cs \<le> length s \<and> map canonicalize (take (length cs) s) = map canonicalize cs
      then [drop (length cs) s] else [])"
| "match_i Dot s = (case s of [] \<Rightarrow> [] | x # xs \<Rightarrow> if isLineTerminator x then [] else [xs])"
| "match_i (Cls cs) s =
     (case s of [] \<Rightarrow> []
      | x # xs \<Rightarrow> if canonicalize x \<in> set (map canonicalize cs) then [xs] else [])"
| "match_i (Seq a b) s = concat (map (match_i b) (match_i a s))"
| "match_i (Alt a b) s = match_i a s @ match_i b s"
| "match_i (Rep m n r) s = concat (map (\<lambda>k. iterate k (match_i r) [s]) (rev [m..<Suc n]))"

text \<open>\<^verbatim>\<open>/r/i.test(s)\<close>: the pattern matches at some position of \<open>s\<close>.\<close>

fun test_i :: "regex \<Rightarrow> jsstring \<Rightarrow> bool" where
  "test_i r [] = (match_i r [] \<noteq> [])"
| "test_i r (x # xs) = (match_i r (x # xs) \<noteq> [] \<or> test_i r xs)"

text \<open>
  The pattern of the loop, \<^verbatim>\<open>/D.{1,3}[ZJQP]|chapter|section|part/i\<close>, where \<open>D\<close> stands
  for the ideograph U+7B2C (31532, the ordinal prefix) and \<open>Z\<close>, \<open>J\<close>, \<open>Q\<close>, \<open>P\<close> for
  U+7AE0, U+8282, U+5377, U+7BC7 (31456, 33410, 21367, 31687: chapter, section, volume,
  part).
\<close>

definition chapterPattern :: regex where
  "chapterPattern =
     Alt (Seq (Lit [31532]) (Seq (Rep 1 3 Dot) (Cls [31456, 33410, 21367, 31687])))
       (Alt (Lit (lit ''chapter'')) (Alt (Lit (lit ''section'')) (Lit (lit ''part''))))"

text \<open>
  The condition of the loop on the trimmed line; \<open>String.prototype.toUpperCase\<close> is
  a parameter.
\<close>

definition isChapterHeading :: "(jsstring \<Rightarrow> jsstring) \<Rightarrow> jsstring \<Rightarrow> bool" where
  "isChapterHeading toUpperCase' line =
     ((length line < 30 \<and> length line > 0)
      \<and> (toUpperCase' line = line \<or> test_i chapterPattern line))"

record Chapter =
  title_chapter :: jsstring
  position_chapter :: nat

text \<open>
  The \<^verbatim>\<open>for (let i = 0; i < lines.length; i++)\<close> loop, from index \<open>i\<close> with the
  chapters pushed so far.
\<close>

function detectChapters_from ::
  "(jsstring \<Rightarrow> jsstring) \<Rightarrow> jsstring list \<Rightarrow> nat \<Rightarrow> Chapter list \<Rightarrow> Chapter list" where
  "detectChapters_from up lines i detectedChapters =
     (if i < length lines then
        (let line = trim (lines ! i)
         in detectChapters_from up lines (i + 1)
              (if isChapterHeading up line
               then detectedChapters @ [\<lparr>title_chapter = line, position_chapter = i\<rparr>]
               else detectedChapters))
      else detectedChapters)"
  by pat_completeness auto
termination
  by (relation "measure (\<lambda>(up, lines, i, d). length lines - i)") auto

definition detectChapters :: "(jsstring \<Rightarrow> jsstring) \<Rightarrow> jsstring \<Rightarrow> Chapter list" where
  "detectChapters up bookContent = detectChapters_from up (split 10 bookContent) 0 []"

text \<open>
  The specification's rule for a line of the text: the trimmed length is strictly between
  0 and 30, and the trimmed line equals its upper-cased form or matches the pattern.
\<close>

definition heading_spec :: "(jsstring \<Rightarrow> jsstring) \<Rightarrow> jsstring \<Rightarrow> bool" where
  "heading_spec up l =
     (0 < length (trim l) \<and> length (trim l) < 30
      \<and> (trim l = up (trim l) \<or> test_i chapterPattern (trim l)))"

text \<open>
  The example text of the specification: the line \<open>CHAPTER ONE\<close>, a long line of body
  text, and a line of six code units, U+7B2C U+4E00 U+7AE0, a space, U+5F00 U+59CB
  ("chapter one, beginning"), separated by line feeds.
\<close>

definition example_text :: jsstring where
  "example_text =
     lit ''CHAPTER ONE'' @ [10]
     @ lit ''Some body text that is long enough to not qualify as a heading line here'' @ [10]
     @ [31532, 19968, 31456, 32, 24320, 22987]"

definition ascii_upper :: "jsstring \<Rightarrow> jsstring" where
  "ascii_upper s = map (\<lambda>c. if 97 \<le> c \<and> c \<le> 122 then c - 32 else c) s"

section \<open>Notions used by the properties\<close>

text \<open>
  The catalog is the collection that \<open>getAllBooks\<close> returns; when \<open>getAllBooks\<close> returns
  a value that is no array there is no catalog (\<open>has_catalog\<close> is false, and \<open>catalog\<close>
  has no record). \<open>persisted\<close> is the collection that the stored text holds, whether or
  not the store can be read at the moment.
\<close>

definition catalog :: "world \<Rightarrow> Book list" where
  "catalog w = (case fst (getAllBooks w) of Inr (JArray books) \<Rightarrow> books | _ \<Rightarrow> [])"

definition has_catalog :: "world \<Rightarrow> bool" where
  "has_catalog w = (case fst (getAllBooks w) of Inr (JArray books) \<Rightarrow> True | _ \<Rightarrow> False)"

definition persisted :: "world \<Rightarrow> Book list" where
  "persisted w = (case storage w of Some (Stringified bs) \<Rightarrow> bs | _ \<Rightarrow> [])"

definition unique_ids :: "Book list \<Rightarrow> bool" where
  "unique_ids books = distinct (map id_book books)"

text \<open>Two worlds agree on the key-value store: its entry and its two fault switches.\<close>

definition same_kv :: "world \<Rightarrow> world \<Rightarrow> bool" where
  "same_kv w w' = (storage w' = storage w \<and> getItem_fault w' = getItem_fault w
     \<and> setItem_fault w' = setItem_fault w)"

definition kv_pres :: "'a io \<Rightarrow> bool" where
  "kv_pres m = (\<forall>w. same_kv w (snd (m w)))"

subsection \<open>Sequences of calls\<close>

text \<open>
  The calls that the screens make on the module, and changes of what the platform
  refuses, which may happen between any two calls.
\<close>

datatype action =
    AddBook Book jsstring
  | UpdateBook Book
  | DeleteBook jsstring
  | ReadBookContent jsstring jsstring
  | SetFaults bool bool "fs_call list \<Rightarrow> fs_call \<Rightarrow> bool"

fun step :: "platform \<Rightarrow> action \<Rightarrow> world \<Rightarrow> world" where
  "step P (AddBook book fileUri) w = snd (addBook P book fileUri w)"
| "step P (UpdateBook book) w = snd (updateBook book w)"
| "step P (DeleteBook bookId) w = snd (deleteBook bookId w)"
| "step P (ReadBookContent p t) w = snd (readBookContent P p t w)"
| "step P (SetFaults g s f) w = w\<lparr>getItem_fault := g, setItem_fault := s, fs_fault := f\<rparr>"

fun run :: "platform \<Rightarrow> action list \<Rightarrow> world \<Rightarrow> world" where
  "run P [] w = w"
| "run P (a # as) w = run P as (step P a w)"

text \<open>
  The precondition of the import: the id of the new record is not among the stored ones
  at the time of the call.
\<close>

fun fresh_id :: "action \<Rightarrow> world \<Rightarrow> bool" where
  "fresh_id (AddBook book fileUri) w = (id_book book \<notin> set (map id_book (persisted w)))"
| "fresh_id a w = True"

fun fresh_ids :: "platform \<Rightarrow> action list \<Rightarrow> world \<Rightarrow> bool" where
  "fresh_ids P [] w = True"
| "fresh_ids P (a # as) w = (fresh_id a w \<and> fresh_ids P as (step P a w))"


subsection \<open>A concrete platform and concrete worlds, for running the model\<close>

definition ascii_lower :: "jsstring \<Rightarrow> jsstring" where
  "ascii_lower s = map (\<lambda>c. if 65 \<le> c \<and> c \<le> 90 then c + 32 else c) s"

text \<open>A platform whose files hold ASCII text, with documents under \<open>/doc/\<close>.\<close>

definition demo_platform :: "os \<Rightarrow> platform" where
  "demo_platform sys =
     \<lparr>OS = sys, documentDirectory = Some (lit ''/doc/''), toLowerCase = ascii_lower,
      decodeUTF8 = (\<lambda>bs. if list_all (\<lambda>b. b < 128) bs then Some bs else None),
      encodeUTF8 = (\<lambda>s. s), encodeBase64 = (\<lambda>bs. bs), bufferBase64ToUTF8 = (\<lambda>s. s)\<rparr>"

text \<open>A freshly started application: nothing stored, nothing cached, no call made.\<close>

definition demo_world ::
  "(jsstring \<rightharpoonup> node) \<Rightarrow> (fs_call list \<Rightarrow> fs_call \<Rightarrow> bool) \<Rightarrow> world" where
  "demo_world fs faults =
     \<lparr>storage = None, getItem_fault = False, setItem_fault = False, files = fs,
      io_log = [], fs_fault = faults, contentCache = Map.empty\<rparr>"

definition demo_book :: "jsstring \<Rightarrow> jsstring \<Rightarrow> Book" where
  "demo_book i t =
     \<lparr>id_book = i, title = lit ''Title'', author = None, filePath = lit ''/tmp/in'',
      fileType = t, coverUrl = None, lastRead = None, lastPage = None, totalPages = None,
      chapterIndex = None, highlights = None, bookmarks = None\<rparr>"

definition demo_files :: "jsstring \<rightharpoonup> node" where
  "demo_files = [lit ''/tmp/in'' \<mapsto> File (lit ''hi'')]"

text \<open>The platform refuses the short probe read of \<open>/doc/books/1.txt\<close>.\<close>

definition probe_fault :: "fs_call list \<Rightarrow> fs_call \<Rightarrow> bool" where
  "probe_fault log c = (c = ReadAsString (lit ''/doc/books/1.txt'') UTF8 (Some (0, 100)))"

definition no_fault :: "fs_call list \<Rightarrow> fs_call \<Rightarrow> bool" where
  "no_fault log c = False"





section \<open>Basic facts about the model\<close>

lemma catch_rethrow: "catch m (\<lambda>error. throw error) = m"
  by (rule ext) (simp add: catch_def throw_def split: prod.splits sum.splits)

lemma getAllBooks_eval:
  "getAllBooks w =
     (Inr (if getItem_fault w then JArray []
           else case storage w of
                  Some (Stringified bs) \<Rightarrow> JArray bs
                | Some OtherJson \<Rightarrow> JNonArray
                | _ \<Rightarrow> JArray []), w)"
  by (simp add: getAllBooks_def catch_def bind_def getItem_def return_def throw_def JSON_parse_def
      split: option.splits json_text.splits)

lemma saveBooks_eval:
  "saveBooks books w =
     (if setItem_fault w then (Inl StorageWriteError, w)
      else (Inr (), w\<lparr>storage := Some (Stringified books)\<rparr>))"
  by (simp add: saveBooks_def catch_rethrow setItem_def JSON_stringify_def)

lemma catalog_eval: "catalog w = (if getItem_fault w then [] else persisted w)"
  by (simp add: catalog_def getAllBooks_eval persisted_def
      split: option.splits json_text.splits)

lemma has_catalog_eval: "has_catalog w = (getItem_fault w \<or> storage w \<noteq> Some OtherJson)"
  by (simp add: has_catalog_def getAllBooks_eval split: option.splits json_text.splits)

lemma getAllBooks_catalog:
  "getAllBooks w = (Inr (if has_catalog w then JArray (catalog w) else JNonArray), w)"
  by (simp add: catalog_def has_catalog_def getAllBooks_eval
      split: option.splits json_text.splits)

lemma no_catalog_empty: "\<not> has_catalog w \<Longrightarrow> catalog w = []"
  by (simp add: catalog_def has_catalog_def split: sum.splits json_value.splits)

lemma in_catalog_has_catalog: "x \<in> set (catalog w) \<Longrightarrow> has_catalog w"
  by (cases "has_catalog w") (auto dest: no_catalog_empty)

subsection \<open>File-system calls leave the key-value store alone\<close>

lemma same_kv_trans: "same_kv a b \<Longrightarrow> same_kv b c \<Longrightarrow> same_kv a c"
  by (simp add: same_kv_def)

lemma kv_presD: "kv_pres m \<Longrightarrow> m w = (r, w') \<Longrightarrow> same_kv w w'"
  by (metis kv_pres_def snd_conv)

lemma kv_pres_return: "kv_pres (return x)"
  by (simp add: kv_pres_def return_def same_kv_def)

lemma kv_pres_throw: "kv_pres (throw e)"
  by (simp add: kv_pres_def throw_def same_kv_def)

lemma kv_pres_bind:
  assumes "kv_pres m" and "\<And>x. kv_pres (f x)"
  shows "kv_pres (bind m f)"
  unfolding kv_pres_def
proof
  fix w
  obtain r w1 where m: "m w = (r, w1)" by (cases "m w")
  have s1: "same_kv w w1" using assms(1) m by (rule kv_presD)
  show "same_kv w (snd (bind m f w))"
  proof (cases r)
    case (Inl e)
    then show ?thesis using m s1 by (simp add: bind_def)
  next
    case (Inr x)
    obtain r2 w2 where f: "f x w1 = (r2, w2)" by (cases "f x w1")
    have "same_kv w1 w2" using assms(2) f by (rule kv_presD)
    then show ?thesis using m s1 Inr f by (auto simp: bind_def intro: same_kv_trans)
  qed
qed

lemma kv_pres_catch:
  assumes "kv_pres m" and "\<And>e. kv_pres (h e)"
  shows "kv_pres (catch m h)"
  unfolding kv_pres_def
proof
  fix w
  obtain r w1 where m: "m w = (r, w1)" by (cases "m w")
  have s1: "same_kv w w1" using assms(1) m by (rule kv_presD)
  show "same_kv w (snd (catch m h w))"
  proof (cases r)
    case (Inr x)
    then show ?thesis using m s1 by (simp add: catch_def)
  next
    case (Inl e)
    obtain r2 w2 where f: "h e w1 = (r2, w2)" by (cases "h e w1")
    have "same_kv w1 w2" using assms(2) f by (rule kv_presD)
    then show ?thesis using m s1 Inl f by (auto simp: catch_def intro: same_kv_trans)
  qed
qed

lemma kv_pres_if: "kv_pres a \<Longrightarrow> kv_pres b \<Longrightarrow> kv_pres (if c then a else b)"
  by simp

lemma kv_pres_fs_do: "(\<And>w. same_kv w (snd (act w))) \<Longrightarrow> kv_pres (fs_do c act)"
  unfolding kv_pres_def fs_do_def Let_def by (auto simp: same_kv_def)

lemma kv_pres_getInfoAsync: "kv_pres (getInfoAsync p)"
  unfolding getInfoAsync_def by (rule kv_pres_fs_do) (simp add: same_kv_def)

lemma kv_pres_makeDirectoryAsync: "kv_pres (makeDirectoryAsync p)"
  unfolding makeDirectoryAsync_def
  by (rule kv_pres_fs_do) (simp add: same_kv_def split: option.splits node.splits)

lemma kv_pres_readAsStringAsync: "kv_pres (readAsStringAsync P p enc r)"
  unfolding readAsStringAsync_def
  by (rule kv_pres_fs_do)
    (simp add: same_kv_def split: option.splits node.splits encoding.splits)

lemma kv_pres_writeAsStringAsync: "kv_pres (writeAsStringAsync P p c)"
  unfolding writeAsStringAsync_def
  by (rule kv_pres_fs_do) (simp add: same_kv_def split: option.splits node.splits)

lemma kv_pres_copyAsync: "kv_pres (copyAsync a b)"
  unfolding copyAsync_def
  by (rule kv_pres_fs_do) (simp add: same_kv_def split: option.splits node.splits)

lemma kv_pres_deleteAsync: "kv_pres (deleteAsync a)"
  unfolding deleteAsync_def
  by (rule kv_pres_fs_do) (simp add: same_kv_def split: option.splits node.splits)

lemma kv_pres_cache_put: "kv_pres (cache_put p c)"
  by (simp add: kv_pres_def cache_put_def same_kv_def)

lemmas kv_pres_intros = kv_pres_return kv_pres_throw kv_pres_bind kv_pres_catch kv_pres_if
  kv_pres_getInfoAsync kv_pres_makeDirectoryAsync kv_pres_readAsStringAsync
  kv_pres_writeAsStringAsync kv_pres_copyAsync kv_pres_deleteAsync kv_pres_cache_put

lemma kv_pres_initialize: "kv_pres (initialize P)"
  unfolding initialize_def by (intro kv_pres_intros)

lemma kv_pres_isFileReadable: "kv_pres (isFileReadable P p)"
  unfolding isFileReadable_def by (intro kv_pres_intros)

lemma kv_pres_addBook_copy: "kv_pres (addBook_copy P e u p)"
  unfolding addBook_copy_def by (intro kv_pres_intros)

lemma kv_pres_addBook_prefix:
  "kv_pres (bind (initialize P) (\<lambda>u. bind (addBook_copy P e fileUri p)
     (\<lambda>u. isFileReadable P p)))"
  by (intro kv_pres_intros kv_pres_initialize kv_pres_addBook_copy kv_pres_isFileReadable)

lemma same_kv_getAllBooks: "same_kv w w' \<Longrightarrow> fst (getAllBooks w') = fst (getAllBooks w)"
  by (simp add: getAllBooks_eval same_kv_def)

subsection \<open>What a finished \<open>addBook\<close> has done to the store\<close>

lemma addBook_failure_keeps_storage:
  assumes "addBook P book fileUri w = (Inl e, w')"
  shows "storage w' = storage w"
proof -
  let ?p = "addBook_localFilePath P book fileUri"
  let ?pre = "bind (initialize P)
     (\<lambda>u. bind (addBook_copy P (addBook_fileExt P book fileUri) fileUri ?p)
        (\<lambda>u. isFileReadable P ?p))"
  obtain r wp where pre: "?pre w = (r, wp)" by (cases "?pre w")
  have kv: "same_kv w wp" using kv_pres_addBook_prefix pre by (rule kv_presD)
  show ?thesis
    using assms pre kv
    by (auto simp: addBook_def catch_rethrow bind_def Let_def throw_def return_def
        getAllBooks_eval saveBooks_eval same_kv_def
        split: prod.splits sum.splits if_splits option.splits json_text.splits)
qed

lemma addBook_success:
  assumes "addBook P book fileUri w = (Inr b, w')"
  shows "b = book\<lparr>filePath := addBook_localFilePath P book fileUri\<rparr>"
    and "storage w' = Some (Stringified (catalog w @ [b]))"
    and "getItem_fault w' = getItem_fault w" and "setItem_fault w' = setItem_fault w"
    and "\<not> setItem_fault w" and "has_catalog w"
proof -
  let ?p = "addBook_localFilePath P book fileUri"
  let ?pre = "bind (initialize P)
     (\<lambda>u. bind (addBook_copy P (addBook_fileExt P book fileUri) fileUri ?p)
        (\<lambda>u. isFileReadable P ?p))"
  obtain r wp where pre: "?pre w = (r, wp)" by (cases "?pre w")
  have kv: "same_kv w wp" using kv_pres_addBook_prefix pre by (rule kv_presD)
  have all: "b = book\<lparr>filePath := ?p\<rparr> \<and> storage w' = Some (Stringified (catalog w @ [b]))
     \<and> getItem_fault w' = getItem_fault w \<and> setItem_fault w' = setItem_fault w
     \<and> \<not> setItem_fault w \<and> has_catalog w"
    using assms pre kv
    by (auto simp: addBook_def catch_rethrow bind_def Let_def throw_def return_def
        getAllBooks_eval has_catalog_eval catalog_eval persisted_def saveBooks_eval same_kv_def
        split: prod.splits sum.splits if_splits option.splits json_text.splits)
  show "b = book\<lparr>filePath := addBook_localFilePath P book fileUri\<rparr>"
    and "storage w' = Some (Stringified (catalog w @ [b]))"
    and "getItem_fault w' = getItem_fault w" and "setItem_fault w' = setItem_fault w"
    and "\<not> setItem_fault w" and "has_catalog w" using all by simp_all
qed

subsection \<open>Runs of the model on the concrete platform\<close>

lemma demo_books_dir: "BOOKS_DIR (demo_platform sys) = lit ''/doc/books/''"
  by (simp add: BOOKS_DIR_def demo_platform_def lit_def)

lemma demo_txt_ext:
  "addBook_fileExt (demo_platform sys) (demo_book i (lit ''text/plain'')) u = lit ''txt''"
  by (simp add: addBook_fileExt_def demo_book_def lit_def)

lemma demo_txt_path:
  "addBook_localFilePath (demo_platform sys) (demo_book (lit ''1'') (lit ''text/plain'')) u
     = lit ''/doc/books/1.txt''"
  by (simp add: addBook_localFilePath_def demo_txt_ext demo_books_dir)
    (simp add: lit_def demo_book_def)

subsection \<open>\<open>findIndex\<close>, \<open>updateBook\<close> and \<open>deleteBook\<close> in closed form\<close>

lemma findIndex_from_takeWhile:
  "findIndex_from pred xs i =
     (if \<exists>x\<in>set xs. pred x then i + int (length (takeWhile (\<lambda>x. \<not> pred x) xs)) else - 1)"
  by (induction xs arbitrary: i) auto

lemma findIndex_takeWhile:
  "findIndex pred xs =
     (if \<exists>x\<in>set xs. pred x then int (length (takeWhile (\<lambda>x. \<not> pred x) xs)) else - 1)"
  by (simp add: findIndex_def findIndex_from_takeWhile)

lemma findIndex_none: "findIndex pred xs = - 1 \<longleftrightarrow> (\<forall>x\<in>set xs. \<not> pred x)"
  by (simp add: findIndex_takeWhile)

lemma findIndex_some:
  assumes "\<exists>x\<in>set xs. pred x"
  shows "findIndex pred xs = int (length (takeWhile (\<lambda>x. \<not> pred x) xs))"
    and "nat (findIndex pred xs) < length xs"
    and "pred (xs ! nat (findIndex pred xs))"
    and "\<forall>j < nat (findIndex pred xs). \<not> pred (xs ! j)"
proof -
  let ?n = "length (takeWhile (\<lambda>x. \<not> pred x) xs)"
  show eq: "findIndex pred xs = int ?n" using assms by (simp add: findIndex_takeWhile)
  have lt: "?n < length xs"
  proof -
    have "takeWhile (\<lambda>x. \<not> pred x) xs \<noteq> xs"
      using assms by (simp add: takeWhile_eq_all_conv)
    then have "?n \<noteq> length xs"
      by (metis takeWhile_eq_take take_all order_refl)
    then show ?thesis using length_takeWhile_le[of "\<lambda>x. \<not> pred x" xs] by simp
  qed
  then show "nat (findIndex pred xs) < length xs" by (simp add: eq)
  show "pred (xs ! nat (findIndex pred xs))"
    using nth_length_takeWhile[OF lt] by (simp add: eq)
  show "\<forall>j < nat (findIndex pred xs). \<not> pred (xs ! j)"
  proof (intro allI impI)
    fix j assume "j < nat (findIndex pred xs)"
    then have j: "j < ?n" by (simp add: eq)
    then have "takeWhile (\<lambda>x. \<not> pred x) xs ! j \<in> set (takeWhile (\<lambda>x. \<not> pred x) xs)" by simp
    then have "\<not> pred (takeWhile (\<lambda>x. \<not> pred x) xs ! j)" by (metis set_takeWhileD)
    then show "\<not> pred (xs ! j)" using j by (simp add: takeWhile_nth)
  qed
qed

lemma updateBook_eval:
  "updateBook u w =
     (if \<not> has_catalog w then (Inl TypeError, w)
      else
        let index = findIndex (\<lambda>book. id_book book = id_book u) (catalog w)
        in if index \<noteq> - 1 then
             (if setItem_fault w then (Inl StorageWriteError, w)
              else (Inr (), w\<lparr>storage := Some (Stringified ((catalog w)[nat index := u]))\<rparr>))
           else (Inl (RecordNotFoundError (id_book u)), w))"
  by (simp add: updateBook_def catch_rethrow bind_def getAllBooks_catalog Let_def
      saveBooks_eval throw_def)

lemma deleteBook_eval:
  "deleteBook bookId w =
     (if \<not> has_catalog w then (Inl TypeError, w)
      else
        case find (\<lambda>book. id_book book = bookId) (catalog w) of
          None \<Rightarrow> (Inr (), w)
        | Some b \<Rightarrow>
            (let w' = snd (deleteAsync (filePath b) w)
             in if setItem_fault w' then (Inl StorageWriteError, w')
                else (Inr (), w'\<lparr>storage := Some (Stringified
                        (filter (\<lambda>book. id_book book \<noteq> bookId) (catalog w)))\<rparr>)))"
  by (simp add: deleteBook_def catch_rethrow bind_def getAllBooks_catalog Let_def
      saveBooks_eval throw_def return_def catch_def
      split: option.splits prod.splits sum.splits)


subsection \<open>Each call keeps the stored ids distinct\<close>

lemma addBook_unique:
  assumes u: "unique_ids (persisted w)" and f: "id_book book \<notin> set (map id_book (persisted w))"
  shows "unique_ids (persisted (snd (addBook P book fileUri w)))"
proof (cases "addBook P book fileUri w")
  case (Pair r w')
  show ?thesis
  proof (cases r)
    case (Inl e)
    with Pair have "storage w' = storage w" by (simp add: addBook_failure_keeps_storage)
    with Pair u show ?thesis by (simp add: persisted_def)
  next
    case (Inr b)
    with Pair have ab: "addBook P book fileUri w = (Inr b, w')" by simp
    have b: "id_book b = id_book book" using addBook_success(1)[OF ab] by simp
    have st: "persisted w' = catalog w @ [b]" using addBook_success(2)[OF ab] by (simp add: persisted_def)
    show ?thesis using Pair st b u f by (auto simp: unique_ids_def catalog_eval)
  qed
qed

lemma map_id_update:
  "i < length xs \<Longrightarrow> id_book (xs ! i) = id_book u \<Longrightarrow> map id_book (xs[i := u]) = map id_book xs"
  by (simp add: map_update list_update_same_conv)

lemma updateBook_ids:
  "map id_book (persisted (snd (updateBook u w))) = map id_book (persisted w)"
proof (cases "\<exists>x\<in>set (catalog w). id_book x = id_book u")
  case False
  then show ?thesis by (simp add: updateBook_eval findIndex_none)
next
  case True
  note fi = findIndex_some[of "catalog w" "\<lambda>book. id_book book = id_book u", OF True]
  have ne: "findIndex (\<lambda>book. id_book book = id_book u) (catalog w) \<noteq> - 1"
    using True by (simp add: findIndex_none)
  from True have g: "\<not> getItem_fault w" by (auto simp: catalog_eval split: if_splits)
  from True have hc: "has_catalog w" by (auto intro: in_catalog_has_catalog)
  show ?thesis using ne fi(2,3) g hc
    by (simp add: updateBook_eval Let_def persisted_def map_id_update catalog_eval)
qed

lemma updateBook_unique:
  "unique_ids (persisted w) \<Longrightarrow> unique_ids (persisted (snd (updateBook u w)))"
  by (simp add: unique_ids_def updateBook_ids)

lemma deleteAsync_kv: "same_kv w (snd (deleteAsync p w))"
  using kv_pres_deleteAsync by (simp add: kv_pres_def)

lemma deleteBook_unique:
  assumes "unique_ids (persisted w)"
  shows "unique_ids (persisted (snd (deleteBook bookId w)))"
proof (cases "find (\<lambda>book. id_book book = bookId) (catalog w)")
  case None
  then show ?thesis using assms by (simp add: deleteBook_eval)
next
  case (Some b)
  have "unique_ids (filter (\<lambda>book. id_book book \<noteq> bookId) (catalog w))"
    using assms by (auto simp: unique_ids_def catalog_eval distinct_map_filter)
  then show ?thesis using Some assms deleteAsync_kv[of w "filePath b"]
    by (cases "has_catalog w") (simp_all add: deleteBook_eval Let_def persisted_def same_kv_def)
qed

lemma kv_pres_readBookContent_read: "kv_pres (readBookContent_read P p t)"
  unfolding readBookContent_read_def by (intro kv_pres_intros)

lemma readBookContent_kv: "same_kv w (snd (readBookContent P p t w))"
proof -
  have "kv_pres (bind (readBookContent_read P p t) (\<lambda>content. return (Text content)))"
    by (intro kv_pres_intros kv_pres_readBookContent_read)
  then show ?thesis
    by (simp add: readBookContent_def kv_pres_def same_kv_def)
qed

lemma step_unique:
  assumes "unique_ids (persisted w)" and "fresh_id a w"
  shows "unique_ids (persisted (step P a w))"
proof (cases a)
  case (AddBook book fileUri)
  then show ?thesis using assms by (simp add: addBook_unique)
next
  case (UpdateBook book)
  then show ?thesis using assms by (simp add: updateBook_unique)
next
  case (DeleteBook bookId)
  then show ?thesis using assms by (simp add: deleteBook_unique)
next
  case (ReadBookContent p t)
  then show ?thesis using assms readBookContent_kv[of w P p t]
    by (simp add: persisted_def same_kv_def)
next
  case (SetFaults g s f)
  then show ?thesis using assms by (simp add: persisted_def)
qed

subsection \<open>Reading, the cache and the log\<close>

lemma readBookContent_hit:
  "cache_hit w p \<Longrightarrow> readBookContent P p t w = (Inr (the (cache_get w p)), w)"
  by (simp add: readBookContent_def)

lemma miss_not_proto: "\<not> cache_hit w p \<Longrightarrow> p \<noteq> lit ''__proto__''"
  by (auto simp: cache_hit_def cache_get_def truthy_value_def)

lemma cache_get_put:
  "p \<noteq> lit ''__proto__'' \<Longrightarrow>
     cache_get (w\<lparr>contentCache := (contentCache w)(p \<mapsto> c)\<rparr>) p = Some (Text c)"
  by (simp add: cache_get_def)

lemma cache_hit_Text: "cache_get w p = Some (Text c) \<Longrightarrow> cache_hit w p = (c \<noteq> [])"
  by (simp add: cache_hit_def truthy_value_def)

lemma readAsStringAsync_log:
  "io_log (snd (readAsStringAsync P p enc r w)) = io_log w @ [ReadAsString p enc r]"
  by (simp add: readAsStringAsync_def fs_do_def Let_def
      split: option.splits node.splits encoding.splits)

lemma readAsStringAsync_snd:
  "snd (readAsStringAsync P p enc r w) = w\<lparr>io_log := io_log w @ [ReadAsString p enc r]\<rparr>"
  by (simp add: readAsStringAsync_def fs_do_def Let_def
      split: option.splits node.splits encoding.splits)

text \<open>The text branch of a read that misses the cache.\<close>

lemma text_read_miss:
  assumes t: "includes_js t (lit ''text/plain'')" and miss: "\<not> cache_hit w p"
  shows "\<exists>cs. io_log (snd (readBookContent P p t w)) = io_log w @ ReadAsString p UTF8 None # cs"
    and "readBookContent P p t w = (Inr v, w') \<Longrightarrow>
           \<exists>c. v = Text c \<and> cache_get w' p = Some (Text c)"
proof -
  obtain r1 w1 where r1: "readAsStringAsync P p UTF8 None w = (r1, w1)"
    by (cases "readAsStringAsync P p UTF8 None w")
  obtain r2 w2 where r2: "readAsStringAsync P p Base64 None w1 = (r2, w2)"
    by (cases "readAsStringAsync P p Base64 None w1")
  have l1: "io_log w1 = io_log w @ [ReadAsString p UTF8 None]"
    using readAsStringAsync_log[of P p UTF8 None w] r1 by simp
  have l2: "io_log w2 = io_log w1 @ [ReadAsString p Base64 None]"
    using readAsStringAsync_log[of P p Base64 None w1] r2 by simp
  note np = miss_not_proto[OF miss]
  show "\<exists>cs. io_log (snd (readBookContent P p t w)) = io_log w @ ReadAsString p UTF8 None # cs"
    using t miss r1 r2 l1 l2 np
    by (cases r1; cases r2)
      (simp_all add: readBookContent_def readBookContent_read_def catch_rethrow bind_def
        catch_def cache_put_def return_def)
  show "\<exists>c. v = Text c \<and> cache_get w' p = Some (Text c)"
    if "readBookContent P p t w = (Inr v, w')"
    using that t miss r1 r2 np
    by (cases r1; cases r2)
      (auto simp: readBookContent_def readBookContent_read_def catch_rethrow bind_def
        catch_def cache_put_def return_def cache_get_put)
qed




lemma read_other_miss:
  assumes nt: "\<not> includes_js t (lit ''text/plain'')" and miss: "\<not> cache_hit w p"
  shows "readBookContent P p t w =
     (Inr (Text (if includes_js t (lit ''application/pdf'') then PDF_UNSUPPORTED
           else if includes_js t (lit ''application/epub+zip'') then EPUB_UNSUPPORTED
           else [])), w)"
  unfolding readBookContent_def readBookContent_read_def catch_rethrow
  using nt miss by (simp add: return_def bind_def)

subsection \<open>The steps of an import\<close>

lemma split_no_sep: "sep \<notin> set s \<Longrightarrow> split sep s = [s]"
  by (induction s) auto

lemma getInfoAsync_snd: "snd (getInfoAsync p w) = w\<lparr>io_log := io_log w @ [GetInfo p]\<rparr>"
  by (simp add: getInfoAsync_def fs_do_def Let_def)

lemma getInfoAsync_fst:
  "fst (getInfoAsync p w) = Inr i \<Longrightarrow>
     (exists i \<and> \<not> isDirectory i) = (\<exists>bs. files w p = Some (File bs))"
  by (auto simp: getInfoAsync_def fs_do_def Let_def split: if_splits option.splits node.splits)

lemma isFileReadable_True:
  assumes "isFileReadable P p w = (Inr True, w')"
  shows "\<exists>bs. files w p = Some (File bs)" and "files w' = files w"
    and "\<exists>cs. io_log w' = io_log w @ cs"
proof -
  obtain r1 w1 where g: "getInfoAsync p w = (r1, w1)" by (cases "getInfoAsync p w")
  obtain r2 w2 where r: "readAsStringAsync P p UTF8 (Some (0, 100)) w1 = (r2, w2)"
    by (cases "readAsStringAsync P p UTF8 (Some (0, 100)) w1")
  have w1: "w1 = w\<lparr>io_log := io_log w @ [GetInfo p]\<rparr>"
    using getInfoAsync_snd[of p w] g by simp
  have w2: "w2 = w1\<lparr>io_log := io_log w1 @ [ReadAsString p UTF8 (Some (0, 100))]\<rparr>"
    using readAsStringAsync_snd[of P p UTF8 "Some (0, 100)" w1] r by simp
  from assms g r obtain i where i: "r1 = Inr i" "exists i \<and> \<not> isDirectory i"
    and w': "w' = w1 \<or> w' = w2"
    by (cases r1; cases r2)
      (auto simp: isFileReadable_def catch_def bind_def return_def split: if_splits)
  from getInfoAsync_fst[of p w i] g i show "\<exists>bs. files w p = Some (File bs)" by simp
  from w' w1 w2 show "files w' = files w" by auto
  from w' w1 w2 show "\<exists>cs. io_log w' = io_log w @ cs" by auto
qed

lemma copyAsync_ok:
  assumes "copyAsync src dst w = (Inr (), w')"
  shows "\<exists>n. files w' = (files w)(dst \<mapsto> n)" and "io_log w' = io_log w @ [Copy src dst]"
  using assms
  by (auto simp: copyAsync_def fs_do_def Let_def split: if_splits option.splits)

lemma isFileReadable_log: "\<exists>cs. io_log (snd (isFileReadable P p w)) = io_log w @ cs"
proof -
  obtain r1 w1 where g: "getInfoAsync p w = (r1, w1)" by (cases "getInfoAsync p w")
  obtain r2 w2 where r: "readAsStringAsync P p UTF8 (Some (0, 100)) w1 = (r2, w2)"
    by (cases "readAsStringAsync P p UTF8 (Some (0, 100)) w1")
  have w1: "w1 = w\<lparr>io_log := io_log w @ [GetInfo p]\<rparr>"
    using getInfoAsync_snd[of p w] g by simp
  have w2: "w2 = w1\<lparr>io_log := io_log w1 @ [ReadAsString p UTF8 (Some (0, 100))]\<rparr>"
    using readAsStringAsync_snd[of P p UTF8 "Some (0, 100)" w1] r by simp
  have "snd (isFileReadable P p w) = w1 \<or> snd (isFileReadable P p w) = w2"
    using g r by (cases r1; cases r2)
      (auto simp: isFileReadable_def catch_def bind_def return_def split: if_splits)
  with w1 w2 show ?thesis by auto
qed

lemma copyAsync_log: "io_log (snd (copyAsync src dst w)) = io_log w @ [Copy src dst]"
  by (simp add: copyAsync_def fs_do_def Let_def split: option.splits)

lemma addBook_copies_to:
  assumes ext: "addBook_fileExt P book fileUri \<noteq> lit ''txt''"
    and init: "initialize P w = (Inr (), w1)"
  shows "\<exists>cs. io_log (snd (addBook P book fileUri w))
           = io_log w1 @ Copy fileUri (addBook_localFilePath P book fileUri) # cs"
proof -
  let ?p = "addBook_localFilePath P book fileUri"
  obtain r2 w2 where c: "copyAsync fileUri ?p w1 = (r2, w2)" by (cases "copyAsync fileUri ?p w1")
  obtain r3 w3 where f: "isFileReadable P ?p w2 = (r3, w3)" by (cases "isFileReadable P ?p w2")
  have l2: "io_log w2 = io_log w1 @ [Copy fileUri ?p]"
    using copyAsync_log[of fileUri ?p w1] c by simp
  obtain cs where l3: "io_log w3 = io_log w2 @ cs"
    using isFileReadable_log[of P ?p w2] f by auto
  have "io_log (snd (addBook P book fileUri w)) = io_log w2
      \<or> io_log (snd (addBook P book fileUri w)) = io_log w3"
    using init c f ext
    by (cases r2; cases r3)
      (auto simp: addBook_def catch_rethrow bind_def Let_def addBook_copy_def throw_def
        return_def getAllBooks_catalog saveBooks_eval)
  with l2 l3 show ?thesis by auto
qed

subsection \<open>The chapter loop\<close>

declare detectChapters_from.simps [simp del]

lemma detectChapters_from_eq:
  "detectChapters_from up lines i acc =
     acc @ map (\<lambda>j. \<lparr>title_chapter = trim (lines ! j), position_chapter = j\<rparr>)
             (filter (\<lambda>j. heading_spec up (lines ! j)) [i..<length lines])"
proof (induction up lines i acc rule: detectChapters_from.induct)
  case (1 up lines i acc)
  show ?case
  proof (cases "i < length lines")
    case False
    then show ?thesis by (simp add: detectChapters_from.simps[of up lines i acc])
  next
    case True
    have hs: "isChapterHeading up (trim (lines ! i)) = heading_spec up (lines ! i)"
      by (auto simp: isChapterHeading_def heading_spec_def)
    have up: "[i..<length lines] = i # [Suc i..<length lines]"
      using True by (simp add: upt_conv_Cons)
    show ?thesis
      using True "1.IH"[OF True refl]
      by (subst detectChapters_from.simps) (simp add: Let_def hs up)
  qed
qed

lemma split_line: "sep \<notin> set a \<Longrightarrow> split sep (a @ sep # rest) = a # split sep rest"
  by (induction a) (auto split: list.splits)

lemma example_lines:
  "split 10 example_text =
     [lit ''CHAPTER ONE'',
      lit ''Some body text that is long enough to not qualify as a heading line here'',
      [31532, 19968, 31456, 32, 24320, 22987]]"
proof -
  have a: "10 \<notin> set (lit ''CHAPTER ONE'')" by (simp add: lit_def)
  have b: "10 \<notin> set (lit ''Some body text that is long enough to not qualify as a heading line here'')"
    by (simp add: lit_def)
  have c: "(10::nat) \<notin> set [31532, 19968, 31456, 32, 24320, 22987]" by simp
  show ?thesis
    unfolding example_text_def using split_line[OF a] split_line[OF b] split_no_sep[OF c]
    by simp
qed

lemma example_line0_heading: "heading_spec up (lit ''CHAPTER ONE'')"
  by (simp add: heading_spec_def trim_def lit_def isWhiteSpace_def isLineTerminator_def
      chapterPattern_def canonicalize_def)

lemma example_line2_heading: "heading_spec up [31532, 19968, 31456, 32, 24320, 22987]"
  by (simp add: heading_spec_def trim_def lit_def isWhiteSpace_def isLineTerminator_def
      chapterPattern_def canonicalize_def numeral_3_eq_3)

lemma example_line1_no_heading: "\<not> heading_spec up (lit ''Some body text that is long enough to not qualify as a heading line here'')"
proof -
  have "trim (lit ''Some body text that is long enough to not qualify as a heading line here'')
      = lit ''Some body text that is long enough to not qualify as a heading line here''"
    by (simp add: trim_def lit_def isWhiteSpace_def isLineTerminator_def)
  moreover have "length (lit ''Some body text that is long enough to not qualify as a heading line here'') = 72"
    by (simp add: lit_def)
  ultimately show ?thesis by (simp add: heading_spec_def)
qed

section \<open>A failed readability probe aborts the import\<close>

text \<open>
  C1. When \<open>addBook\<close> has prepared the directory and copied the file, and the
  readability probe on the copied file answers no, \<open>addBook\<close> fails with the
  not-readable error for that path, and the stored catalog is what it was before the
  call: the stored text is untouched and \<open>getAllBooks\<close> returns the same collection.
\<close>

theorem addBook_unreadable_aborts:
  assumes init: "initialize P w = (Inr (), w1)"
    and copy: "addBook_copy P (addBook_fileExt P book fileUri) fileUri
                 (addBook_localFilePath P book fileUri) w1 = (Inr (), w2)"
    and probe: "isFileReadable P (addBook_localFilePath P book fileUri) w2 = (Inr False, w3)"
  shows "addBook P book fileUri w =
           (Inl (FileNotReadableError (addBook_localFilePath P book fileUri)), w3)
         \<and> storage w3 = storage w
         \<and> fst (getAllBooks w3) = fst (getAllBooks w)"
proof -
  have run: "addBook P book fileUri w =
           (Inl (FileNotReadableError (addBook_localFilePath P book fileUri)), w3)"
    using init copy probe
    by (simp add: addBook_def catch_rethrow bind_def Let_def throw_def)
  have "same_kv w w1" using kv_pres_initialize init by (rule kv_presD)
  moreover have "same_kv w1 w2" using kv_pres_addBook_copy copy by (rule kv_presD)
  moreover have "same_kv w2 w3" using kv_pres_isFileReadable probe by (rule kv_presD)
  ultimately have kv: "same_kv w w3" by (blast intro: same_kv_trans)
  then have "storage w3 = storage w" by (simp add: same_kv_def)
  with run kv show ?thesis by (simp add: same_kv_getAllBooks)
qed

text \<open>
  On iOS, with a text file to import and a platform that refuses the probe read, the
  three steps go as the theorem asks and the import fails, nothing being stored.
\<close>

theorem addBook_unreadable_aborts_witness:
  "fst (initialize (demo_platform Ios) (demo_world demo_files probe_fault)) = Inr ()
   \<and> fst (addBook_copy (demo_platform Ios) (lit ''txt'') (lit ''/tmp/in'')
          (lit ''/doc/books/1.txt'')
          (snd (initialize (demo_platform Ios) (demo_world demo_files probe_fault)))) = Inr ()
   \<and> fst (isFileReadable (demo_platform Ios) (lit ''/doc/books/1.txt'')
          (snd (addBook_copy (demo_platform Ios) (lit ''txt'') (lit ''/tmp/in'')
             (lit ''/doc/books/1.txt'')
             (snd (initialize (demo_platform Ios) (demo_world demo_files probe_fault))))))
       = Inr False
   \<and> fst (addBook (demo_platform Ios) (demo_book (lit ''1'') (lit ''text/plain''))
          (lit ''/tmp/in'') (demo_world demo_files probe_fault))
       = Inl (FileNotReadableError (lit ''/doc/books/1.txt''))
   \<and> storage (snd (addBook (demo_platform Ios) (demo_book (lit ''1'') (lit ''text/plain''))
          (lit ''/tmp/in'') (demo_world demo_files probe_fault)))
       = storage (demo_world demo_files probe_fault)"
proof -
  let ?P = "demo_platform Ios"
  let ?b = "demo_book (lit ''1'') (lit ''text/plain'')"
  let ?u = "lit ''/tmp/in''"
  let ?w = "demo_world demo_files probe_fault"
  let ?w1 = "snd (initialize ?P ?w)"
  let ?w2 = "snd (addBook_copy ?P (addBook_fileExt ?P ?b ?u) ?u
                (addBook_localFilePath ?P ?b ?u) ?w1)"
  let ?w3 = "snd (isFileReadable ?P (addBook_localFilePath ?P ?b ?u) ?w2)"
  have e1: "fst (initialize ?P ?w) = Inr ()"
    by code_simp
  have e2: "fst (addBook_copy ?P (addBook_fileExt ?P ?b ?u) ?u
                  (addBook_localFilePath ?P ?b ?u) ?w1) = Inr ()"
    by code_simp
  have e3: "fst (isFileReadable ?P (addBook_localFilePath ?P ?b ?u) ?w2) = Inr False"
    by code_simp
  have h1: "initialize ?P ?w = (Inr (), ?w1)"
    using e1 by (simp only: prod_eq_iff fst_conv snd_conv)
  have h2: "addBook_copy ?P (addBook_fileExt ?P ?b ?u) ?u
              (addBook_localFilePath ?P ?b ?u) ?w1 = (Inr (), ?w2)"
    using e2 by (simp only: prod_eq_iff fst_conv snd_conv)
  have h3: "isFileReadable ?P (addBook_localFilePath ?P ?b ?u) ?w2 = (Inr False, ?w3)"
    using e3 by (simp only: prod_eq_iff fst_conv snd_conv)
  note r = addBook_unreadable_aborts[OF h1 h2 h3]
  from r have c: "addBook ?P ?b ?u ?w =
      (Inl (FileNotReadableError (addBook_localFilePath ?P ?b ?u)), ?w3)"
    and st: "storage ?w3 = storage ?w" by blast+
  have g2: "fst (addBook ?P ?b ?u ?w) = Inl (FileNotReadableError (lit ''/doc/books/1.txt''))"
    unfolding c by (simp only: fst_conv demo_txt_path)
  have g3: "storage (snd (addBook ?P ?b ?u ?w)) = storage ?w"
    unfolding c using st by (simp only: snd_conv)
  from e1 e2[unfolded demo_txt_ext demo_txt_path] e3[unfolded demo_txt_ext demo_txt_path]
    g2 g3 show ?thesis by blast
qed

section \<open>Listing the catalog never fails\<close>

text \<open>
  C6, as amended. \<open>getAllBooks\<close> never throws and leaves the world alone. It returns
  the stored collection when the store can be read and the stored text parses to an
  array, and the empty collection when nothing is stored, when the stored text is empty
  or does not parse, and when reading the store throws. When the stored text parses to a
  value that is no array it returns that value, unchecked. The order is the order of
  insertion: after a successful \<open>addBook\<close> it returns the collection it returned
  before, with the new record at the end.
\<close>

theorem getAllBooks_never_throws:
  "getAllBooks w =
     (Inr (if getItem_fault w then JArray []
           else case storage w of
                  None \<Rightarrow> JArray []
                | Some (Stringified books) \<Rightarrow> JArray books
                | Some OtherJson \<Rightarrow> JNonArray
                | Some EmptyText \<Rightarrow> JArray []
                | Some Malformed \<Rightarrow> JArray []), w)
   \<and> (\<not> getItem_fault w \<and> addBook P book fileUri w = (Inr b, w') \<longrightarrow>
        (\<exists>books. getAllBooks w = (Inr (JArray books), w)
           \<and> getAllBooks w' = (Inr (JArray (books @ [b])), w')))"
proof (intro conjI impI)
  show "getAllBooks w =
     (Inr (if getItem_fault w then JArray []
           else case storage w of
                  None \<Rightarrow> JArray []
                | Some (Stringified books) \<Rightarrow> JArray books
                | Some OtherJson \<Rightarrow> JNonArray
                | Some EmptyText \<Rightarrow> JArray []
                | Some Malformed \<Rightarrow> JArray []), w)"
    by (simp add: getAllBooks_eval split: option.splits json_text.splits)
next
  assume a: "\<not> getItem_fault w \<and> addBook P book fileUri w = (Inr b, w')"
  then have ok: "addBook P book fileUri w = (Inr b, w')" by simp
  have after: "getAllBooks w' = (Inr (JArray (catalog w @ [b])), w')"
    using a addBook_success(2,3)[OF ok] by (simp add: getAllBooks_eval)
  have before: "getAllBooks w = (Inr (JArray (catalog w)), w)"
    using addBook_success(6)[OF ok] by (simp add: getAllBooks_catalog)
  from before after
  show "\<exists>books. getAllBooks w = (Inr (JArray books), w)
      \<and> getAllBooks w' = (Inr (JArray (books @ [b])), w')"
    by blast
qed

text \<open>
  On Android, with nothing stored and no fault, importing a PDF succeeds; the catalog
  was empty before and holds exactly the new record afterwards.
\<close>

theorem getAllBooks_never_throws_witness:
  "\<not> getItem_fault (demo_world demo_files no_fault)
   \<and> fst (addBook (demo_platform Android) (demo_book (lit ''7'') (lit ''application/pdf''))
          (lit ''/tmp/in'') (demo_world demo_files no_fault))
       = Inr ((demo_book (lit ''7'') (lit ''application/pdf''))
               \<lparr>filePath := lit ''/doc/books/7.pdf''\<rparr>)
   \<and> fst (getAllBooks (demo_world demo_files no_fault)) = Inr (JArray [])
   \<and> fst (getAllBooks (snd (addBook (demo_platform Android)
          (demo_book (lit ''7'') (lit ''application/pdf'')) (lit ''/tmp/in'')
          (demo_world demo_files no_fault))))
       = Inr (JArray [(demo_book (lit ''7'') (lit ''application/pdf''))
               \<lparr>filePath := lit ''/doc/books/7.pdf''\<rparr>])"
proof -
  let ?P = "demo_platform Android"
  let ?b = "demo_book (lit ''7'') (lit ''application/pdf'')"
  let ?b' = "?b\<lparr>filePath := lit ''/doc/books/7.pdf''\<rparr>"
  let ?u = "lit ''/tmp/in''"
  let ?w = "demo_world demo_files no_fault"
  let ?w' = "snd (addBook ?P ?b ?u ?w)"
  have nf: "\<not> getItem_fault ?w" by (simp add: demo_world_def)
  have e: "fst (addBook ?P ?b ?u ?w) = Inr ?b'" by code_simp
  have g0: "fst (getAllBooks ?w) = Inr (JArray [])" by code_simp
  have h: "addBook ?P ?b ?u ?w = (Inr ?b', ?w')"
    using e by (simp only: prod_eq_iff fst_conv snd_conv)
  from getAllBooks_never_throws[of ?w ?P ?b ?u ?b' ?w'] nf h
  obtain books where b0: "getAllBooks ?w = (Inr (JArray books), ?w)"
    and b1: "getAllBooks ?w' = (Inr (JArray (books @ [?b'])), ?w')" by blast
  from b0 g0 have "books = []" by (simp only: fst_conv sum.inject json_value.inject)
  with b1 have "fst (getAllBooks ?w') = Inr (JArray [?b'])"
    by (simp only: fst_conv append_Nil)
  with nf e g0 show ?thesis by blast
qed

text \<open>
  The claim as first stated, that for every state of the store \<open>getAllBooks\<close> returns
  the stored collection or the empty one, fails when the stored text parses to a value
  that is no array (the text \<^verbatim>\<open>null\<close>, say): the store can be read, nothing throws, and
  what is returned is that value, which is no collection and not the empty collection.
\<close>

theorem getAllBooks_non_array_counterexample:
  "\<not> getItem_fault ((demo_world demo_files no_fault)\<lparr>storage := Some OtherJson\<rparr>)
   \<and> fst (getAllBooks ((demo_world demo_files no_fault)\<lparr>storage := Some OtherJson\<rparr>))
       = Inr JNonArray
   \<and> \<not> has_catalog ((demo_world demo_files no_fault)\<lparr>storage := Some OtherJson\<rparr>)
   \<and> fst (getAllBooks ((demo_world demo_files no_fault)\<lparr>storage := Some OtherJson\<rparr>))
       \<noteq> Inr (JArray [])"
  by code_simp

section \<open>Ids stay unique\<close>

text \<open>
  C2. Start from a world whose stored collection has no two records with the same id,
  and make any sequence of calls of \<open>addBook\<close>, \<open>updateBook\<close>, \<open>deleteBook\<close> and
  \<open>readBookContent\<close>, the platform failing or not as it likes, such that every id
  passed to \<open>addBook\<close> is not stored at the time of that call. Then the stored
  collection has no two records with the same id at the end, hence at every moment.
\<close>

theorem ids_stay_unique:
  "unique_ids (persisted w) \<Longrightarrow> fresh_ids P as w \<Longrightarrow> unique_ids (persisted (run P as w))"
proof (induction as arbitrary: w)
  case Nil
  then show ?case by simp
next
  case (Cons a as)
  from Cons.prems have fresh: "fresh_id a w" and rest: "fresh_ids P as (step P a w)"
    by simp_all
  from Cons.prems(1) fresh have "unique_ids (persisted (step P a w))"
    by (rule step_unique)
  from Cons.IH[OF this rest] show ?case by simp
qed

text \<open>
  Two imports, an update, a deletion, a deletion that fails because the store refuses
  the write, and a third import, from the empty store: the ids stored at the end are 7
  and 9.
\<close>

theorem ids_stay_unique_witness:
  "unique_ids (persisted (demo_world demo_files no_fault))
   \<and> fresh_ids (demo_platform Android)
        [AddBook (demo_book (lit ''7'') (lit ''application/pdf'')) (lit ''/tmp/in''),
         AddBook (demo_book (lit ''8'') (lit ''text/plain'')) (lit ''/tmp/in''),
         UpdateBook ((demo_book (lit ''7'') (lit ''application/pdf''))
           \<lparr>title := lit ''New'', filePath := lit ''/doc/books/7.pdf''\<rparr>),
         DeleteBook (lit ''8''),
         SetFaults False True no_fault,
         DeleteBook (lit ''7''),
         SetFaults False False no_fault,
         AddBook (demo_book (lit ''9'') (lit ''text/plain'')) (lit ''/tmp/in'')]
        (demo_world demo_files no_fault)
   \<and> map id_book (persisted (run (demo_platform Android)
        [AddBook (demo_book (lit ''7'') (lit ''application/pdf'')) (lit ''/tmp/in''),
         AddBook (demo_book (lit ''8'') (lit ''text/plain'')) (lit ''/tmp/in''),
         UpdateBook ((demo_book (lit ''7'') (lit ''application/pdf''))
           \<lparr>title := lit ''New'', filePath := lit ''/doc/books/7.pdf''\<rparr>),
         DeleteBook (lit ''8''),
         SetFaults False True no_fault,
         DeleteBook (lit ''7''),
         SetFaults False False no_fault,
         AddBook (demo_book (lit ''9'') (lit ''text/plain'')) (lit ''/tmp/in'')]
        (demo_world demo_files no_fault))) = [lit ''7'', lit ''9'']
   \<and> unique_ids (persisted (run (demo_platform Android)
        [AddBook (demo_book (lit ''7'') (lit ''application/pdf'')) (lit ''/tmp/in''),
         AddBook (demo_book (lit ''8'') (lit ''text/plain'')) (lit ''/tmp/in''),
         UpdateBook ((demo_book (lit ''7'') (lit ''application/pdf''))
           \<lparr>title := lit ''New'', filePath := lit ''/doc/books/7.pdf''\<rparr>),
         DeleteBook (lit ''8''),
         SetFaults False True no_fault,
         DeleteBook (lit ''7''),
         SetFaults False False no_fault,
         AddBook (demo_book (lit ''9'') (lit ''text/plain'')) (lit ''/tmp/in'')]
        (demo_world demo_files no_fault)))"
proof -
  let ?as = "[AddBook (demo_book (lit ''7'') (lit ''application/pdf'')) (lit ''/tmp/in''),
         AddBook (demo_book (lit ''8'') (lit ''text/plain'')) (lit ''/tmp/in''),
         UpdateBook ((demo_book (lit ''7'') (lit ''application/pdf''))
           \<lparr>title := lit ''New'', filePath := lit ''/doc/books/7.pdf''\<rparr>),
         DeleteBook (lit ''8''),
         SetFaults False True no_fault,
         DeleteBook (lit ''7''),
         SetFaults False False no_fault,
         AddBook (demo_book (lit ''9'') (lit ''text/plain'')) (lit ''/tmp/in'')]"
  let ?w = "demo_world demo_files no_fault"
  have u0: "unique_ids (persisted ?w)" by code_simp
  have f: "fresh_ids (demo_platform Android) ?as ?w" by code_simp
  have ids: "map id_book (persisted (run (demo_platform Android) ?as ?w)) = [lit ''7'', lit ''9'']"
    by code_simp
  from ids_stay_unique[OF u0 f] u0 f ids show ?thesis by blast
qed

section \<open>Updating a record\<close>




section \<open>Deleting a record\<close>




section \<open>Reading the same path twice\<close>

text \<open>
  C4, as amended. After a successful read of a path as plain text that returned a
  text that is not empty, a second read of that path returns the same text and leaves the
  world as it is: no file-system call is made, no file and no cache entry changes.
\<close>

theorem second_read_from_cache:
  assumes t: "includes_js t (lit ''text/plain'')"
    and first: "readBookContent P p t w = (Inr v, w')"
    and nonempty: "v \<noteq> Text []"
  shows "readBookContent P p t w' = (Inr v, w')"
proof (cases "cache_hit w p")
  case True
  with first have "w' = w" and "the (cache_get w p) = v" by (auto simp: readBookContent_def)
  with True show ?thesis by (simp add: readBookContent_def)
next
  case False
  from text_read_miss(2)[OF t False first]
  obtain c where c: "v = Text c" "cache_get w' p = Some (Text c)" by blast
  with nonempty have "cache_hit w' p" by (simp add: cache_hit_Text)
  with c show ?thesis by (simp add: readBookContent_hit)
qed

theorem second_read_from_cache_witness:
  "includes_js (lit ''text/plain'') (lit ''text/plain'')
   \<and> fst (readBookContent (demo_platform Android) (lit ''/tmp/in'') (lit ''text/plain'')
        (demo_world demo_files no_fault)) = Inr (Text (lit ''hi''))
   \<and> Text (lit ''hi'') \<noteq> Text []
   \<and> readBookContent (demo_platform Android) (lit ''/tmp/in'') (lit ''text/plain'')
        (snd (readBookContent (demo_platform Android) (lit ''/tmp/in'') (lit ''text/plain'')
           (demo_world demo_files no_fault)))
     = (Inr (Text (lit ''hi'')),
        snd (readBookContent (demo_platform Android) (lit ''/tmp/in'') (lit ''text/plain'')
           (demo_world demo_files no_fault)))"
proof -
  let ?P = "demo_platform Android"
  let ?p = "lit ''/tmp/in''"
  let ?t = "lit ''text/plain''"
  let ?w = "demo_world demo_files no_fault"
  have t: "includes_js ?t ?t" by code_simp
  have e: "fst (readBookContent ?P ?p ?t ?w) = Inr (Text (lit ''hi''))" by code_simp
  have ne: "Text (lit ''hi'') \<noteq> Text []" by code_simp
  have h: "readBookContent ?P ?p ?t ?w
      = (Inr (Text (lit ''hi'')), snd (readBookContent ?P ?p ?t ?w))"
    using e by (simp only: prod_eq_iff fst_conv snd_conv)
  from second_read_from_cache[OF t h ne] t e ne show ?thesis by blast
qed

text \<open>
  The claim as first stated, for every successful first read, fails on an empty file: the
  first read succeeds with the empty text, and the second read calls the file system
  again.
\<close>

theorem second_read_empty_counterexample:
  "includes_js (lit ''text/plain'') (lit ''text/plain'')
   \<and> fst (readBookContent (demo_platform Android) (lit ''/tmp/in'') (lit ''text/plain'')
        (demo_world [lit ''/tmp/in'' \<mapsto> File []] no_fault)) = Inr (Text [])
   \<and> io_log (snd (readBookContent (demo_platform Android) (lit ''/tmp/in'') (lit ''text/plain'')
        (demo_world [lit ''/tmp/in'' \<mapsto> File []] no_fault)))
     = [ReadAsString (lit ''/tmp/in'') UTF8 None]
   \<and> io_log (snd (readBookContent (demo_platform Android) (lit ''/tmp/in'') (lit ''text/plain'')
        (snd (readBookContent (demo_platform Android) (lit ''/tmp/in'') (lit ''text/plain'')
           (demo_world [lit ''/tmp/in'' \<mapsto> File []] no_fault)))))
     = [ReadAsString (lit ''/tmp/in'') UTF8 None, ReadAsString (lit ''/tmp/in'') UTF8 None]"
  by code_simp

section \<open>A cached empty text is never served\<close>




section \<open>Types without text extraction\<close>

text \<open>
  C8, as amended. For a type that does not contain \<open>text/plain\<close>, \<open>readBookContent\<close>
  never throws and leaves the world as it is. When the cache lookup for the path is no
  hit (no text, or the empty text, is cached for the path, and the path is not the name
  of an inherited member that no entry hides), it returns the PDF placeholder for a type
  containing \<open>application/pdf\<close>, the EPUB placeholder for a type containing
  \<open>application/epub+zip\<close> and not \<open>application/pdf\<close>, and the empty text for any other
  type. When the lookup is a hit, it returns what the lookup found: the cached text, which
  is not empty, or the inherited member.
\<close>

theorem placeholder_unless_cached:
  assumes nt: "\<not> includes_js t (lit ''text/plain'')"
  shows "(\<not> cache_hit w p \<and> includes_js t (lit ''application/pdf'') \<longrightarrow>
            readBookContent P p t w = (Inr (Text PDF_UNSUPPORTED), w))
       \<and> (\<not> cache_hit w p \<and> \<not> includes_js t (lit ''application/pdf'')
            \<and> includes_js t (lit ''application/epub+zip'') \<longrightarrow>
            readBookContent P p t w = (Inr (Text EPUB_UNSUPPORTED), w))
       \<and> (\<not> cache_hit w p \<and> \<not> includes_js t (lit ''application/pdf'')
            \<and> \<not> includes_js t (lit ''application/epub+zip'') \<longrightarrow>
            readBookContent P p t w = (Inr (Text []), w))
       \<and> (cache_hit w p \<longrightarrow>
            (\<exists>v. cache_get w p = Some v \<and> v \<noteq> Text []
               \<and> readBookContent P p t w = (Inr v, w)))
       \<and> (cache_hit w p
            = (p = lit ''__proto__''
               \<or> (case contentCache w p of Some c \<Rightarrow> c \<noteq> []
                   | None \<Rightarrow> p \<in> set Object_prototype_names)))"
proof (intro conjI impI)
  assume "\<not> cache_hit w p \<and> includes_js t (lit ''application/pdf'')"
  then show "readBookContent P p t w = (Inr (Text PDF_UNSUPPORTED), w)"
    using read_other_miss[OF nt, of w p P] by simp
next
  assume "\<not> cache_hit w p \<and> \<not> includes_js t (lit ''application/pdf'')
            \<and> includes_js t (lit ''application/epub+zip'')"
  then show "readBookContent P p t w = (Inr (Text EPUB_UNSUPPORTED), w)"
    using read_other_miss[OF nt, of w p P] by simp
next
  assume "\<not> cache_hit w p \<and> \<not> includes_js t (lit ''application/pdf'')
            \<and> \<not> includes_js t (lit ''application/epub+zip'')"
  then show "readBookContent P p t w = (Inr (Text []), w)"
    using read_other_miss[OF nt, of w p P] by simp
next
  assume h: "cache_hit w p"
  then have "\<exists>v. cache_get w p = Some v \<and> v \<noteq> Text []"
    by (auto simp: cache_hit_def truthy_value_def split: option.splits js_value.splits)
  then obtain v where v: "cache_get w p = Some v" "v \<noteq> Text []" by blast
  with readBookContent_hit[OF h, of P t]
  show "\<exists>v. cache_get w p = Some v \<and> v \<noteq> Text [] \<and> readBookContent P p t w = (Inr v, w)"
    by simp
next
  show "cache_hit w p
            = (p = lit ''__proto__''
               \<or> (case contentCache w p of Some c \<Rightarrow> c \<noteq> []
                   | None \<Rightarrow> p \<in> set Object_prototype_names))"
    by (simp add: cache_hit_def cache_get_def truthy_value_def split: option.splits)
qed

text \<open>
  With nothing cached: the PDF placeholder, the EPUB placeholder, and the empty text for
  an image type. With \<open>hi\<close> cached for the path: \<open>hi\<close>, for the PDF type too. With
  nothing cached and the path \<open>constructor\<close>: the inherited member of that name.
\<close>

theorem placeholder_unless_cached_witness:
  "\<not> includes_js (lit ''application/pdf'') (lit ''text/plain'')
   \<and> \<not> cache_hit (demo_world demo_files no_fault) (lit ''/tmp/in'')
   \<and> readBookContent (demo_platform Android) (lit ''/tmp/in'') (lit ''application/pdf'')
        (demo_world demo_files no_fault)
      = (Inr (Text PDF_UNSUPPORTED), demo_world demo_files no_fault)
   \<and> readBookContent (demo_platform Android) (lit ''/tmp/in'') (lit ''application/epub+zip'')
        (demo_world demo_files no_fault)
      = (Inr (Text EPUB_UNSUPPORTED), demo_world demo_files no_fault)
   \<and> readBookContent (demo_platform Android) (lit ''/tmp/in'') (lit ''image/png'')
        (demo_world demo_files no_fault) = (Inr (Text []), demo_world demo_files no_fault)
   \<and> cache_hit ((demo_world demo_files no_fault)
        \<lparr>contentCache := [lit ''/tmp/in'' \<mapsto> lit ''hi'']\<rparr>) (lit ''/tmp/in'')
   \<and> readBookContent (demo_platform Android) (lit ''/tmp/in'') (lit ''application/pdf'')
        ((demo_world demo_files no_fault)\<lparr>contentCache := [lit ''/tmp/in'' \<mapsto> lit ''hi'']\<rparr>)
      = (Inr (Text (lit ''hi'')),
         (demo_world demo_files no_fault)\<lparr>contentCache := [lit ''/tmp/in'' \<mapsto> lit ''hi'']\<rparr>)
   \<and> cache_hit (demo_world demo_files no_fault) (lit ''constructor'')
   \<and> readBookContent (demo_platform Android) (lit ''constructor'') (lit ''application/pdf'')
        (demo_world demo_files no_fault)
      = (Inr (Inherited (lit ''constructor'')), demo_world demo_files no_fault)"
proof -
  let ?P = "demo_platform Android"
  let ?p = "lit ''/tmp/in''"
  let ?k = "lit ''constructor''"
  let ?w = "demo_world demo_files no_fault"
  let ?v = "?w\<lparr>contentCache := [lit ''/tmp/in'' \<mapsto> lit ''hi'']\<rparr>"
  have pdf: "\<not> includes_js (lit ''application/pdf'') (lit ''text/plain'')"
    "includes_js (lit ''application/pdf'') (lit ''application/pdf'')" by code_simp+
  have epub: "\<not> includes_js (lit ''application/epub+zip'') (lit ''text/plain'')"
    "\<not> includes_js (lit ''application/epub+zip'') (lit ''application/pdf'')"
    "includes_js (lit ''application/epub+zip'') (lit ''application/epub+zip'')" by code_simp+
  have png: "\<not> includes_js (lit ''image/png'') (lit ''text/plain'')"
    "\<not> includes_js (lit ''image/png'') (lit ''application/pdf'')"
    "\<not> includes_js (lit ''image/png'') (lit ''application/epub+zip'')" by code_simp+
  have miss: "\<not> cache_hit ?w ?p" by code_simp
  have hit: "cache_hit ?v ?p" by code_simp
  have cached: "cache_get ?v ?p = Some (Text (lit ''hi''))" by code_simp
  have hitk: "cache_hit ?w ?k" by code_simp
  have inherited: "cache_get ?w ?k = Some (Inherited ?k)" by code_simp
  from placeholder_unless_cached[OF pdf(1), of ?w ?p ?P] miss pdf(2)
  have r1: "readBookContent ?P ?p (lit ''application/pdf'') ?w = (Inr (Text PDF_UNSUPPORTED), ?w)"
    by blast
  from placeholder_unless_cached[OF epub(1), of ?w ?p ?P] miss epub(2,3)
  have r2: "readBookContent ?P ?p (lit ''application/epub+zip'') ?w
      = (Inr (Text EPUB_UNSUPPORTED), ?w)"
    by blast
  from placeholder_unless_cached[OF png(1), of ?w ?p ?P] miss png(2,3)
  have r3: "readBookContent ?P ?p (lit ''image/png'') ?w = (Inr (Text []), ?w)"
    by blast
  from placeholder_unless_cached[OF pdf(1), of ?v ?p ?P] hit
  obtain c where "cache_get ?v ?p = Some c"
    and "readBookContent ?P ?p (lit ''application/pdf'') ?v = (Inr c, ?v)" by blast
  with cached
  have r4: "readBookContent ?P ?p (lit ''application/pdf'') ?v = (Inr (Text (lit ''hi'')), ?v)"
    by (simp only: option.inject)
  from placeholder_unless_cached[OF pdf(1), of ?w ?k ?P] hitk
  obtain d where "cache_get ?w ?k = Some d"
    and "readBookContent ?P ?k (lit ''application/pdf'') ?w = (Inr d, ?w)" by blast
  with inherited
  have r5: "readBookContent ?P ?k (lit ''application/pdf'') ?w = (Inr (Inherited ?k), ?w)"
    by (simp only: option.inject)
  from pdf(1) miss r1 r2 r3 hit r4 hitk r5 show ?thesis by blast
qed

text \<open>
  The claim as first stated, for every path, fails on a path whose text is in the cache:
  after a plain-text read of the path, a read of the same path with the PDF type returns
  the cached text, not the placeholder. It fails as well, with nothing cached at all, on
  the path \<open>constructor\<close>, for which the lookup finds the inherited member.
\<close>

theorem placeholder_cached_counterexample:
  "fst (readBookContent (demo_platform Android) (lit ''/tmp/in'') (lit ''text/plain'')
        (demo_world demo_files no_fault)) = Inr (Text (lit ''hi''))
   \<and> \<not> includes_js (lit ''application/pdf'') (lit ''text/plain'')
   \<and> includes_js (lit ''application/pdf'') (lit ''application/pdf'')
   \<and> fst (readBookContent (demo_platform Android) (lit ''/tmp/in'') (lit ''application/pdf'')
        (snd (readBookContent (demo_platform Android) (lit ''/tmp/in'') (lit ''text/plain'')
           (demo_world demo_files no_fault)))) = Inr (Text (lit ''hi''))
   \<and> lit ''hi'' \<noteq> PDF_UNSUPPORTED
   \<and> fst (readBookContent (demo_platform Android) (lit ''constructor'') (lit ''application/pdf'')
        (demo_world demo_files no_fault)) = Inr (Inherited (lit ''constructor''))"
proof -
  have a: "fst (readBookContent (demo_platform Android) (lit ''/tmp/in'') (lit ''text/plain'')
        (demo_world demo_files no_fault)) = Inr (Text (lit ''hi''))" by code_simp
  have b: "\<not> includes_js (lit ''application/pdf'') (lit ''text/plain'')" by code_simp
  have c: "includes_js (lit ''application/pdf'') (lit ''application/pdf'')" by code_simp
  have d: "fst (readBookContent (demo_platform Android) (lit ''/tmp/in'') (lit ''application/pdf'')
        (snd (readBookContent (demo_platform Android) (lit ''/tmp/in'') (lit ''text/plain'')
           (demo_world demo_files no_fault)))) = Inr (Text (lit ''hi''))" by code_simp
  have e: "lit ''hi'' \<noteq> PDF_UNSUPPORTED" by (simp add: lit_def PDF_UNSUPPORTED_def)
  have f: "fst (readBookContent (demo_platform Android) (lit ''constructor'')
        (lit ''application/pdf'') (demo_world demo_files no_fault))
      = Inr (Inherited (lit ''constructor''))" by code_simp
  from a b c d e f show ?thesis by blast
qed

section \<open>An unknown type and a source without a dot\<close>

text \<open>
  C10. For a book whose type contains none of \<open>text/plain\<close>, \<open>application/pdf\<close>,
  \<open>application/epub+zip\<close>, and a source location without a dot, the extension is
  empty and the local path is the content directory followed by the id and a dot. Once
  the content directory is there, the next thing \<open>addBook\<close> does is to copy the source
  to that path. When \<open>addBook\<close> returns a record, the record is the given one with
  that path as \<open>filePath\<close>, a file exists at that path, and the source was copied to
  that path.
\<close>

theorem addBook_unknown_type_trailing_dot:
  assumes nt: "\<not> includes_js (fileType book) (lit ''text/plain'')"
    and np: "\<not> includes_js (fileType book) (lit ''application/pdf'')"
    and ne: "\<not> includes_js (fileType book) (lit ''application/epub+zip'')"
    and nodot: "46 \<notin> set fileUri"
  shows "addBook_fileExt P book fileUri = []
     \<and> addBook_localFilePath P book fileUri = BOOKS_DIR P @ id_book book @ lit ''.''
     \<and> (initialize P w = (Inr (), w1) \<longrightarrow>
          (\<exists>cs. io_log (snd (addBook P book fileUri w))
             = io_log w1 @ Copy fileUri (BOOKS_DIR P @ id_book book @ lit ''.'') # cs))
     \<and> (addBook P book fileUri w = (Inr b, w') \<longrightarrow>
           b = book\<lparr>filePath := BOOKS_DIR P @ id_book book @ lit ''.''\<rparr>
         \<and> (\<exists>bs. files w' (BOOKS_DIR P @ id_book book @ lit ''.'') = Some (File bs))
         \<and> Copy fileUri (BOOKS_DIR P @ id_book book @ lit ''.'') \<in> set (io_log w'))"
proof (intro conjI impI)
  show ext: "addBook_fileExt P book fileUri = []"
    using nt np ne nodot by (simp add: addBook_fileExt_def split_no_sep)
  show path: "addBook_localFilePath P book fileUri = BOOKS_DIR P @ id_book book @ lit ''.''"
    by (simp add: addBook_localFilePath_def ext)
  let ?p = "BOOKS_DIR P @ id_book book @ lit ''.''"
  have ntxt: "([]::jsstring) \<noteq> lit ''txt''" by (simp add: lit_def)
  show "\<exists>cs. io_log (snd (addBook P book fileUri w)) = io_log w1 @ Copy fileUri ?p # cs"
    if "initialize P w = (Inr (), w1)"
    using addBook_copies_to[OF _ that, of book fileUri] ext ntxt path by simp
  assume ok: "addBook P book fileUri w = (Inr b, w')"
  show b: "b = book\<lparr>filePath := ?p\<rparr>" using addBook_success(1)[OF ok] path by simp
  obtain ra wa where i: "initialize P w = (ra, wa)" by (cases "initialize P w")
  obtain rb wb where c: "copyAsync fileUri ?p wa = (rb, wb)"
    by (cases "copyAsync fileUri ?p wa")
  obtain rc wc where f: "isFileReadable P ?p wb = (rc, wc)"
    by (cases "isFileReadable P ?p wb")
  from ok i c f have steps: "rb = Inr ()" "rc = Inr True"
      "files w' = files wc" "io_log w' = io_log wc"
    by (auto simp: addBook_def catch_rethrow bind_def Let_def ext path addBook_copy_def ntxt
        throw_def return_def getAllBooks_catalog saveBooks_eval split: sum.splits if_splits)
  from c steps(1) have c': "copyAsync fileUri ?p wa = (Inr (), wb)" by simp
  from f steps(2) have f': "isFileReadable P ?p wb = (Inr True, wc)" by simp
  from isFileReadable_True[OF f'] obtain bs cs where
    fr: "files wb ?p = Some (File bs)" "files wc = files wb" "io_log wc = io_log wb @ cs"
    by blast
  from fr steps(3) show "\<exists>bs. files w' ?p = Some (File bs)" by simp
  from fr copyAsync_ok(2)[OF c'] steps(4) show "Copy fileUri ?p \<in> set (io_log w')" by simp
qed

text \<open>
  A binary file picked from \<open>/tmp/in\<close> and given the id 5 is stored as
  \<open>/doc/books/5.\<close>, with the trailing dot.
\<close>

theorem addBook_unknown_type_trailing_dot_witness:
  "\<not> includes_js (fileType (demo_book (lit ''5'') (lit ''application/octet-stream'')))
        (lit ''text/plain'')
   \<and> \<not> includes_js (fileType (demo_book (lit ''5'') (lit ''application/octet-stream'')))
        (lit ''application/pdf'')
   \<and> \<not> includes_js (fileType (demo_book (lit ''5'') (lit ''application/octet-stream'')))
        (lit ''application/epub+zip'')
   \<and> 46 \<notin> set (lit ''/tmp/in'')
   \<and> addBook_localFilePath (demo_platform Android)
        (demo_book (lit ''5'') (lit ''application/octet-stream'')) (lit ''/tmp/in'')
      = lit ''/doc/books/5.''
   \<and> fst (addBook (demo_platform Android)
        (demo_book (lit ''5'') (lit ''application/octet-stream'')) (lit ''/tmp/in'')
        (demo_world demo_files no_fault))
      = Inr ((demo_book (lit ''5'') (lit ''application/octet-stream''))
               \<lparr>filePath := lit ''/doc/books/5.''\<rparr>)
   \<and> Copy (lit ''/tmp/in'') (lit ''/doc/books/5.'')
        \<in> set (io_log (snd (addBook (demo_platform Android)
              (demo_book (lit ''5'') (lit ''application/octet-stream'')) (lit ''/tmp/in'')
              (demo_world demo_files no_fault))))
   \<and> io_log (snd (addBook (demo_platform Android)
              (demo_book (lit ''5'') (lit ''application/octet-stream'')) (lit ''/tmp/in'')
              (demo_world demo_files no_fault)))
      = [GetInfo (lit ''/doc/books/''), MakeDirectory (lit ''/doc/books/''),
         Copy (lit ''/tmp/in'') (lit ''/doc/books/5.''), GetInfo (lit ''/doc/books/5.'')]"
proof -
  let ?P = "demo_platform Android"
  let ?b = "demo_book (lit ''5'') (lit ''application/octet-stream'')"
  let ?u = "lit ''/tmp/in''"
  let ?w = "demo_world demo_files no_fault"
  let ?b' = "?b\<lparr>filePath := lit ''/doc/books/5.''\<rparr>"
  have nt: "\<not> includes_js (fileType ?b) (lit ''text/plain'')" by code_simp
  have np: "\<not> includes_js (fileType ?b) (lit ''application/pdf'')" by code_simp
  have ne: "\<not> includes_js (fileType ?b) (lit ''application/epub+zip'')" by code_simp
  have nd: "46 \<notin> set ?u" by code_simp
  have e: "fst (addBook ?P ?b ?u ?w) = Inr ?b'" by code_simp
  have h: "addBook ?P ?b ?u ?w = (Inr ?b', snd (addBook ?P ?b ?u ?w))"
    using e by (simp only: prod_eq_iff fst_conv snd_conv)
  have p: "BOOKS_DIR ?P @ id_book ?b @ lit ''.'' = lit ''/doc/books/5.''"
    by (simp add: demo_books_dir demo_book_def lit_def)
  have lg: "io_log (snd (addBook ?P ?b ?u ?w))
      = [GetInfo (lit ''/doc/books/''), MakeDirectory (lit ''/doc/books/''),
         Copy (lit ''/tmp/in'') (lit ''/doc/books/5.''), GetInfo (lit ''/doc/books/5.'')]"
    by code_simp
  note r = addBook_unknown_type_trailing_dot[OF nt np ne nd,
      of ?P ?w "snd (initialize ?P ?w)" ?b' "snd (addBook ?P ?b ?u ?w)"]
  from r have r1: "addBook_localFilePath ?P ?b ?u = BOOKS_DIR ?P @ id_book ?b @ lit ''.''"
    by blast
  from r h have r2: "Copy ?u (BOOKS_DIR ?P @ id_book ?b @ lit ''.'')
      \<in> set (io_log (snd (addBook ?P ?b ?u ?w)))" by blast
  from nt np ne nd e r1[unfolded p] r2[unfolded p] lg show ?thesis by blast
qed

section \<open>Chapter headings\<close>

text \<open>
  C3. For every sequence of lines, the loop detects exactly the lines that satisfy the
  rule of the specification (trimmed length strictly between 0 and 30, and the trimmed
  line equal to its upper-cased form or matching the pattern), in line order, each with
  its trimmed text and its zero-based index: the line at index \<open>i\<close> is detected if
  and only if it satisfies the rule. \<open>detectChapters\<close> does so for the lines of a text. On the example text the detected positions are 0 and 2, whatever
  \<open>toUpperCase\<close> does.
\<close>

theorem chapter_headings_detected:
  "detectChapters_from up lines 0 [] =
     map (\<lambda>i. \<lparr>title_chapter = trim (lines ! i), position_chapter = i\<rparr>)
       (filter (\<lambda>i. heading_spec up (lines ! i)) [0..<length lines])
   \<and> ((\<exists>c\<in>set (detectChapters_from up lines 0 []). position_chapter c = i)
        \<longleftrightarrow> (i < length lines \<and> heading_spec up (lines ! i)))
   \<and> detectChapters up bookContent =
     map (\<lambda>i. \<lparr>title_chapter = trim (split 10 bookContent ! i), position_chapter = i\<rparr>)
       (filter (\<lambda>i. heading_spec up (split 10 bookContent ! i))
          [0..<length (split 10 bookContent)])
   \<and> map position_chapter (detectChapters up example_text) = [0, 2]"
proof (intro conjI)
  show "detectChapters_from up lines 0 [] =
     map (\<lambda>i. \<lparr>title_chapter = trim (lines ! i), position_chapter = i\<rparr>)
       (filter (\<lambda>i. heading_spec up (lines ! i)) [0..<length lines])"
    by (simp add: detectChapters_from_eq)
  show "(\<exists>c\<in>set (detectChapters_from up lines 0 []). position_chapter c = i)
        \<longleftrightarrow> (i < length lines \<and> heading_spec up (lines ! i))"
    by (auto simp: detectChapters_from_eq)
  show d: "detectChapters up bookContent =
     map (\<lambda>i. \<lparr>title_chapter = trim (split 10 bookContent ! i), position_chapter = i\<rparr>)
       (filter (\<lambda>i. heading_spec up (split 10 bookContent ! i))
          [0..<length (split 10 bookContent)])" for bookContent
    by (simp add: detectChapters_def detectChapters_from_eq)
  have idx: "[0..<3] = [0, 1, 2]" by (simp add: upt_rec)
  show "map position_chapter (detectChapters up example_text) = [0, 2]"
    unfolding d example_lines by (simp add: idx example_line0_heading example_line1_no_heading example_line2_heading)
qed

text \<open>
  With ASCII upper-casing: a line in capitals and a line with the word \<open>part\<close> are
  headings, a line in mixed case is not, and an empty line is not.
\<close>

theorem chapter_headings_detected_witness:
  "detectChapters_from ascii_upper
     [lit ''INTRODUCTION'', lit ''It was a dark night.'', lit ''  Part two  '', []] 0 []
   = [\<lparr>title_chapter = lit ''INTRODUCTION'', position_chapter = 0\<rparr>,
      \<lparr>title_chapter = lit ''Part two'', position_chapter = 2\<rparr>]"
proof -
  let ?ls = "[lit ''INTRODUCTION'', lit ''It was a dark night.'', lit ''  Part two  '', []]"
  have t: "map trim ?ls = [lit ''INTRODUCTION'', lit ''It was a dark night.'', lit ''Part two'', []]"
    by (simp add: trim_def lit_def isWhiteSpace_def isLineTerminator_def)
  have h: "map (heading_spec ascii_upper) ?ls = [True, False, True, False]"
    by (simp add: heading_spec_def trim_def lit_def isWhiteSpace_def isLineTerminator_def
        chapterPattern_def canonicalize_def ascii_upper_def numeral_3_eq_3)
  have idx: "[0..<4] = [0, 1, 2, 3]" by (simp add: upt_rec)
  from chapter_headings_detected[of ascii_upper ?ls] t h show ?thesis
    by (simp add: idx)
qed

end
